theory Spec2Isabelle
  imports Main "HOL-Library.Multiset"
begin

section \<open>Data model (define.go)\<close>

text \<open>
  \<^verbatim>\<open>NodeType\<close> and \<^verbatim>\<open>EdgeType\<close> are Go string types. The extras of a node or an
  edge are an opaque byte sequence (\<^verbatim>\<open>pgtype.JSONB\<close>) that the engine never reads.
  \<^verbatim>\<open>Priority\<close> is a Go \<^verbatim>\<open>int\<close>; the code only compares priorities, so no
  arithmetic can overflow and the mathematical integers model it.
\<close>

type_synonym NodeType = string
type_synonym EdgeType = string
type_synonym JSONB = string

record Node =
  Name :: string
  ID :: string
  NodeType :: NodeType
  NodeExtras :: JSONB

record Edge =
  ID :: string
  DstID :: string
  SrcID :: string
  Priority :: int
  EdgeType :: EdgeType
  EdgeExtras :: JSONB

record Process =
  Nodes :: "Node list"
  Edges :: "Edge list"

section \<open>Errors\<close>

text \<open>
  The engine builds its own errors with \<^verbatim>\<open>fmt.Errorf\<close>, one message per site; each
  site is a constructor carrying the value formatted into the message:
  \<^item> \<open>NodeNotExist nodeID\<close>: \<^verbatim>\<open>ProcessNode\<close>, the node ID is not in the graph;
  \<^item> \<open>NodeHandlerNotFound t\<close>: \<^verbatim>\<open>ProcessNode\<close>, no handler for node type \<open>t\<close>;
  \<^item> \<open>EdgeHandlerNotFound t\<close>: \<^verbatim>\<open>ProcessEdge\<close>, no handler for edge type \<open>t\<close>;
  \<^item> \<open>TargetNodeNotFound edgeID\<close>: \<^verbatim>\<open>GetNextNodeByEdge\<close>, the destination of the
    edge is not in the graph.
  \<open>HandlerFailure msg\<close> stands for an error value made by a caller-supplied handler. A
  Go \<^verbatim>\<open>error\<close> result is an \<open>error option\<close>, \<open>None\<close> for \<^verbatim>\<open>nil\<close>.
\<close>

datatype error =
    NodeNotExist string
  | NodeHandlerNotFound NodeType
  | EdgeHandlerNotFound EdgeType
  | TargetNodeNotFound string
  | HandlerFailure string

section \<open>Graph\<close>

record Graph =
  nodes :: "string \<rightharpoonup> Node"
  edges :: "string \<rightharpoonup> Edge"

text \<open>
  \<^verbatim>\<open>sort.Slice\<close> belongs to the Go standard library. Its documentation promises that the
  slice ends up sorted by the given \<^verbatim>\<open>less\<close> function and that it holds the same
  elements; the sort is not guaranteed to be stable. \<open>sort_Slice lessFn xs ys\<close> holds when
  \<open>ys\<close> is a possible content of the slice after sorting the content \<open>xs\<close>.
\<close>

definition sort_Slice :: "('a \<Rightarrow> 'a \<Rightarrow> bool) \<Rightarrow> 'a list \<Rightarrow> 'a list \<Rightarrow> bool" where
  "sort_Slice lessFn xs ys \<longleftrightarrow> mset ys = mset xs \<and> sorted_wrt (\<lambda>a b. \<not> lessFn b a) ys"

text \<open>
  \<^verbatim>\<open>NewProcess\<close> receives a pointer to the definition. It fills the two maps of the
  graph from the two slices (a later element with the same ID replaces an earlier one)
  and then sorts \<^verbatim>\<open>process.Edges\<close> in place. The model returns the graph together with
  the definition as the caller finds it afterwards; \<open>sortedEdges\<close> is the content that
  \<^verbatim>\<open>sort.Slice\<close> leaves in the slice, which \<open>sort_Slice\<close> constrains.
\<close>

definition NewProcess_less :: "Edge \<Rightarrow> Edge \<Rightarrow> bool" where
  "NewProcess_less a b \<longleftrightarrow> Priority a < Priority b"

definition NewProcess :: "Process \<Rightarrow> Edge list \<Rightarrow> Graph \<times> Process" where
  "NewProcess process sortedEdges =
     (\<lparr>nodes = fold (\<lambda>node m. m(Node.ID node \<mapsto> node)) (Nodes process) Map.empty,
       edges = fold (\<lambda>edge m. m(Edge.ID edge \<mapsto> edge)) (Edges process) Map.empty\<rparr>,
      process\<lparr>Edges := sortedEdges\<rparr>)"

definition GetNodeByID :: "Graph \<Rightarrow> string \<Rightarrow> Node option" where
  "GetNodeByID p nodeID = nodes p nodeID"

text \<open>
  A Go \<^verbatim>\<open>for range\<close> over a map visits every key once, in an order the language leaves
  unspecified and the runtime randomises. \<open>map_range m ks\<close> holds when \<open>ks\<close> is one of
  the orders in which a loop may visit the keys of \<open>m\<close>. The functions that range over
  \<^verbatim>\<open>p.edges\<close> take the order of that one loop as the argument \<open>it\<close>.
\<close>

definition map_range :: "('k \<rightharpoonup> 'v) \<Rightarrow> 'k list \<Rightarrow> bool" where
  "map_range m ks \<longleftrightarrow> distinct ks \<and> set ks = dom m"

definition GetOutgoingEdges :: "Graph \<Rightarrow> string list \<Rightarrow> string \<Rightarrow> Edge list" where
  "GetOutgoingEdges p it nodeID =
     fold (\<lambda>k es. case edges p k of
                     None \<Rightarrow> es
                   | Some edge \<Rightarrow> if SrcID edge = nodeID then es @ [edge] else es)
          it []"

definition GetIncomingEdges :: "Graph \<Rightarrow> string list \<Rightarrow> string \<Rightarrow> Edge list" where
  "GetIncomingEdges p it nodeID =
     fold (\<lambda>k es. case edges p k of
                     None \<Rightarrow> es
                   | Some edge \<Rightarrow> if DstID edge = nodeID then es @ [edge] else es)
          it []"

definition GetNextNodes :: "Graph \<Rightarrow> string list \<Rightarrow> string \<Rightarrow> Node list \<times> error option" where
  "GetNextNodes p it nodeID =
     (fold (\<lambda>edge nextNodes. case GetNodeByID p (DstID edge) of
                                None \<Rightarrow> nextNodes
                              | Some nextNode \<Rightarrow> nextNodes @ [nextNode])
           (GetOutgoingEdges p it nodeID) [],
      None)"

definition GetNextNodeByEdge :: "Graph \<Rightarrow> Edge \<Rightarrow> error + Node" where
  "GetNextNodeByEdge p edge =
     (case GetNodeByID p (DstID edge) of
        Some nextNode \<Rightarrow> Inr nextNode
      | None \<Rightarrow> Inl (TargetNodeNotFound (Edge.ID edge)))"

section \<open>Handlers and the registry\<close>

text \<open>
  Handlers are caller-supplied Go functions. They may have effects, so a handler is a
  function on a store \<open>'s\<close> that the caller owns; it returns its Go results and the new
  store. The graph and the registry are not part of that store: a step reads them and
  no handler changes them while it runs. Handlers are taken to return.
\<close>

type_synonym 's NodeHandlerFunc = "Node \<Rightarrow> 's \<Rightarrow> error option \<times> 's"
type_synonym 's NodeHandlerBeforeFunc = "Node \<Rightarrow> 's \<Rightarrow> error option \<times> 's"
type_synonym 's NodeHandlerAfterFunc = "Node \<Rightarrow> 's \<Rightarrow> error option \<times> 's"
type_synonym 's EdgeHandlerFunc = "Edge \<Rightarrow> 's \<Rightarrow> (bool \<times> error option) \<times> 's"

text \<open>
  The interface \<^verbatim>\<open>CirculateHandler\<close> has the one method \<^verbatim>\<open>CirculateHandler(ctx, edge)\<close>;
  a value of the interface is that method.
\<close>

type_synonym 's CirculateHandler = "Edge \<Rightarrow> 's \<Rightarrow> (bool \<times> error option) \<times> 's"

record 's ProcessRegistry =
  nodeHandlers :: "NodeType \<rightharpoonup> 's NodeHandlerFunc"
  nodeAfterHandlers :: "NodeType \<rightharpoonup> 's NodeHandlerAfterFunc"
  nodeBeforeHandlers :: "NodeType \<rightharpoonup> 's NodeHandlerBeforeFunc"
  edgeHandlers :: "EdgeType \<rightharpoonup> 's EdgeHandlerFunc"

text \<open>A \<^verbatim>\<open>nil\<close> Go map reads as the empty map; registering into it allocates it.\<close>

definition NewProcessRegistry :: "'s ProcessRegistry" where
  "NewProcessRegistry =
     \<lparr>nodeHandlers = Map.empty, nodeAfterHandlers = Map.empty,
      nodeBeforeHandlers = Map.empty, edgeHandlers = Map.empty\<rparr>"

definition RegisterNodeHandler ::
  "NodeType \<Rightarrow> 's NodeHandlerFunc \<Rightarrow> 's ProcessRegistry \<Rightarrow> 's ProcessRegistry" where
  "RegisterNodeHandler nodeType handler r =
     r\<lparr>nodeHandlers := (nodeHandlers r)(nodeType \<mapsto> handler)\<rparr>"

definition RegisterNodeAfterHandler ::
  "NodeType \<Rightarrow> 's NodeHandlerAfterFunc \<Rightarrow> 's ProcessRegistry \<Rightarrow> 's ProcessRegistry" where
  "RegisterNodeAfterHandler nodeType handler r =
     r\<lparr>nodeAfterHandlers := (nodeAfterHandlers r)(nodeType \<mapsto> handler)\<rparr>"

definition RegisterNodeBeforeHandler ::
  "NodeType \<Rightarrow> 's NodeHandlerBeforeFunc \<Rightarrow> 's ProcessRegistry \<Rightarrow> 's ProcessRegistry" where
  "RegisterNodeBeforeHandler nodeType handler r =
     r\<lparr>nodeBeforeHandlers := (nodeBeforeHandlers r)(nodeType \<mapsto> handler)\<rparr>"

definition RegisterEdgeHandler ::
  "EdgeType \<Rightarrow> 's EdgeHandlerFunc \<Rightarrow> 's ProcessRegistry \<Rightarrow> 's ProcessRegistry" where
  "RegisterEdgeHandler edgeType handler r =
     r\<lparr>edgeHandlers := (edgeHandlers r)(edgeType \<mapsto> handler)\<rparr>"

definition GetNodeHandler :: "'s ProcessRegistry \<Rightarrow> NodeType \<Rightarrow> 's NodeHandlerFunc option" where
  "GetNodeHandler r nodeType = nodeHandlers r nodeType"

definition GetNodeAfterHandler ::
  "'s ProcessRegistry \<Rightarrow> NodeType \<Rightarrow> 's NodeHandlerAfterFunc option" where
  "GetNodeAfterHandler r nodeType = nodeAfterHandlers r nodeType"

definition GetNodeBeforeHandler ::
  "'s ProcessRegistry \<Rightarrow> NodeType \<Rightarrow> 's NodeHandlerBeforeFunc option" where
  "GetNodeBeforeHandler r nodeType = nodeBeforeHandlers r nodeType"

definition GetEdgeHandler :: "'s ProcessRegistry \<Rightarrow> EdgeType \<Rightarrow> 's EdgeHandlerFunc option" where
  "GetEdgeHandler r edgeType = edgeHandlers r edgeType"

section \<open>The engine\<close>

text \<open>
  To speak about which handlers a step invokes and in which order, every invocation is
  logged: the world of a step is the caller's store together with the list of the
  invocations made so far, each with the results the handler returned.
\<close>

datatype event =
    OnHandler Node "error option"
  | DecisionHandler Edge bool "error option"
  | AfterHandler Node "error option"
  | StateCommit Edge bool "error option"
  | BeforeHandler Node "error option"

type_synonym 's world = "'s \<times> event list"

definition invoke_node ::
  "(Node \<Rightarrow> error option \<Rightarrow> event) \<Rightarrow> 's NodeHandlerFunc \<Rightarrow> Node \<Rightarrow> 's world \<Rightarrow> error option \<times> 's world" where
  "invoke_node ev handler node w =
     (case handler node (fst w) of
        (err, s') \<Rightarrow> (err, (s', snd w @ [ev node err])))"

definition invoke_edge ::
  "(Edge \<Rightarrow> bool \<Rightarrow> error option \<Rightarrow> event) \<Rightarrow> 's EdgeHandlerFunc \<Rightarrow> Edge \<Rightarrow> 's world
     \<Rightarrow> (bool \<times> error option) \<times> 's world" where
  "invoke_edge ev handler edge w =
     (case handler edge (fst w) of
        ((ok, err), s') \<Rightarrow> ((ok, err), (s', snd w @ [ev edge ok err])))"

record 's ProcessHandler =
  process :: Graph
  registry :: "'s ProcessRegistry"
  circulate :: "'s CirculateHandler option"

definition ProcessEdge ::
  "'s ProcessHandler \<Rightarrow> Edge \<Rightarrow> 's world \<Rightarrow> (bool \<times> error option) \<times> 's world" where
  "ProcessEdge ph edge w =
     (case GetEdgeHandler (registry ph) (EdgeType edge) of
        None \<Rightarrow> ((False, Some (EdgeHandlerNotFound (EdgeType edge))), w)
      | Some edgeHandler \<Rightarrow> invoke_edge DecisionHandler edgeHandler edge w)"

text \<open>
  The body of \<^verbatim>\<open>if ok { ... break }\<close> in \<^verbatim>\<open>ProcessNode\<close>: the after-handler of the
  node when one is registered, the \<^verbatim>\<open>CirculateHandler\<close> when \<^verbatim>\<open>ph.circulate\<close> is not
  \<^verbatim>\<open>nil\<close> (its boolean result is assigned and never read), the lookup of the
  destination, and the before-handler of the destination when one is registered.
\<close>

definition ProcessNode_accepted ::
  "'s ProcessHandler \<Rightarrow> Node \<Rightarrow> Edge \<Rightarrow> 's world \<Rightarrow> error option \<times> 's world" where
  "ProcessNode_accepted ph node edge w =
     (case (case GetNodeAfterHandler (registry ph) (NodeType node) of
              None \<Rightarrow> (None, w)
            | Some nodeAfterHandler \<Rightarrow> invoke_node AfterHandler nodeAfterHandler node w) of
        (Some err, w1) \<Rightarrow> (Some err, w1)
      | (None, w1) \<Rightarrow>
          (case (case circulate ph of
                   None \<Rightarrow> ((True, None), w1)
                 | Some c \<Rightarrow> invoke_edge StateCommit c edge w1) of
             ((ok, Some err), w2) \<Rightarrow> (Some err, w2)
           | ((ok, None), w2) \<Rightarrow>
               (case GetNextNodeByEdge (process ph) edge of
                  Inl err \<Rightarrow> (Some err, w2)
                | Inr nextNode \<Rightarrow>
                    (case GetNodeBeforeHandler (registry ph) (NodeType nextNode) of
                       None \<Rightarrow> (None, w2)
                     | Some nodeBeforeHandler \<Rightarrow>
                         invoke_node BeforeHandler nodeBeforeHandler nextNode w2))))"

text \<open>The loop over the outgoing edges; \<^verbatim>\<open>break\<close> ends it after the first accepted edge.\<close>

fun ProcessNode_edges ::
  "'s ProcessHandler \<Rightarrow> Node \<Rightarrow> Edge list \<Rightarrow> 's world \<Rightarrow> error option \<times> 's world" where
  "ProcessNode_edges ph node [] w = (None, w)"
| "ProcessNode_edges ph node (edge # rest) w =
     (case ProcessEdge ph edge w of
        ((ok, Some err), w1) \<Rightarrow> (Some err, w1)
      | ((ok, None), w1) \<Rightarrow>
          if ok then ProcessNode_accepted ph node edge w1
          else ProcessNode_edges ph node rest w1)"

definition ProcessNode ::
  "'s ProcessHandler \<Rightarrow> string list \<Rightarrow> string \<Rightarrow> 's world \<Rightarrow> error option \<times> 's world" where
  "ProcessNode ph it nodeID w =
     (case GetNodeByID (process ph) nodeID of
        None \<Rightarrow> (Some (NodeNotExist nodeID), w)
      | Some node \<Rightarrow>
          (case GetNodeHandler (registry ph) (NodeType node) of
             None \<Rightarrow> (Some (NodeHandlerNotFound (NodeType node)), w)
           | Some nodeHandler \<Rightarrow>
               (case invoke_node OnHandler nodeHandler node w of
                  (Some err, w1) \<Rightarrow> (Some err, w1)
                | (None, w1) \<Rightarrow>
                    ProcessNode_edges ph node (GetOutgoingEdges (process ph) it nodeID) w1)))"

section \<open>Notions used to state the properties\<close>

text \<open>
  \<open>all_decline ph es w\<close> runs \<^verbatim>\<open>ProcessEdge\<close> on the edges \<open>es\<close> one after the other,
  from the world \<open>w\<close>. It is \<open>Some w'\<close> when every one of them has a decision-handler
  that returns not-accepted and no error, \<open>w'\<close> being the world after the last one,
  and \<open>None\<close> as soon as one of them does anything else.
\<close>

fun all_decline :: "'s ProcessHandler \<Rightarrow> Edge list \<Rightarrow> 's world \<Rightarrow> 's world option" where
  "all_decline ph [] w = Some w"
| "all_decline ph (edge # rest) w =
     (case ProcessEdge ph edge w of
        ((ok, Some err), w1) \<Rightarrow> None
      | ((ok, None), w1) \<Rightarrow> if ok then None else all_decline ph rest w1)"

text \<open>The log entry of a decision-handler that declined.\<close>

definition declined :: "Edge \<Rightarrow> event" where
  "declined edge = DecisionHandler edge False None"

fun is_decision :: "event \<Rightarrow> bool" where
  "is_decision (DecisionHandler edge ok err) = True"
| "is_decision ev = False"

text \<open>
  \<open>with_ok f c\<close> is the state-commit callback \<open>c\<close> with its boolean result replaced
  by \<open>f edge s\<close>, its error result and its effect on the store kept: every callback
  that differs from \<open>c\<close> in the boolean only is of this form. \<open>forget_ok\<close> blanks
  that boolean in a log entry, and \<open>outcome\<close> is what a step leaves behind with the
  boolean blanked: the returned error, the store and the log.
\<close>

definition with_ok :: "(Edge \<Rightarrow> 's \<Rightarrow> bool) \<Rightarrow> 's CirculateHandler \<Rightarrow> 's CirculateHandler" where
  "with_ok f c = (\<lambda>edge s. case c edge s of ((ok, err), s') \<Rightarrow> ((f edge s, err), s'))"

fun forget_ok :: "event \<Rightarrow> event" where
  "forget_ok (StateCommit edge ok err) = StateCommit edge False err"
| "forget_ok ev = ev"

definition outcome :: "error option \<times> 's world \<Rightarrow> error option \<times> 's \<times> event list" where
  "outcome x = (fst x, fst (snd x), map forget_ok (snd (snd x)))"

text \<open>
  The after-handler and the state-commit callback are optional. \<open>after_log ph node\<close>
  is what a successful after-handler phase adds to the log: the entry of the
  after-handler of \<open>node\<close> returning no error when one is registered, nothing when
  none is. \<open>commit_log ph edge ok\<close> is the same for the callback: its entry for
  \<open>edge\<close>, returning \<open>ok\<close> and no error, when \<^verbatim>\<open>ph.circulate\<close> is not \<^verbatim>\<open>nil\<close>, nothing
  when it is.
\<close>

definition after_log :: "'s ProcessHandler \<Rightarrow> Node \<Rightarrow> event list" where
  "after_log ph node =
     (case GetNodeAfterHandler (registry ph) (NodeType node) of
        None \<Rightarrow> []
      | Some nodeAfterHandler \<Rightarrow> [AfterHandler node None])"

definition commit_log :: "'s ProcessHandler \<Rightarrow> Edge \<Rightarrow> bool \<Rightarrow> event list" where
  "commit_log ph edge ok =
     (case circulate ph of
        None \<Rightarrow> []
      | Some c \<Rightarrow> [StateCommit edge ok None])"

section \<open>Example inputs\<close>

text \<open>
  The process of \<^verbatim>\<open>createLeaveProcess\<close> in circulate_test.go, with the handlers and the
  registrations of \<^verbatim>\<open>TestIntegrationLeaveProcess\<close>. The display names of the nodes
  are Chinese strings in the test and are written in English here; the engine never
  reads them. The handlers of the test have no effect, so any store will do.
\<close>

definition emptyExtras :: JSONB where
  "emptyExtras = []"

definition createLeaveProcess :: Process where
  "createLeaveProcess =
     \<lparr>Nodes =
        [\<lparr>Name = ''leave request'', ID = ''leave_request'',
          NodeType = ''leave_request'', NodeExtras = emptyExtras\<rparr>,
         \<lparr>Name = ''leave approval'', ID = ''leave_approval'',
          NodeType = ''leave_approval'', NodeExtras = emptyExtras\<rparr>,
         \<lparr>Name = ''leave complete'', ID = ''leave_complete'',
          NodeType = ''leave_complete'', NodeExtras = emptyExtras\<rparr>],
      Edges =
        [\<lparr>Edge.ID = ''approval_edge'', DstID = ''leave_approval'', SrcID = ''leave_request'',
          Priority = 1, EdgeType = ''approval'', EdgeExtras = emptyExtras\<rparr>,
         \<lparr>Edge.ID = ''complete_edge'', DstID = ''leave_complete'', SrcID = ''leave_approval'',
          Priority = 1, EdgeType = ''complete'', EdgeExtras = emptyExtras\<rparr>]\<rparr>"

definition handleLeaveRequest :: "nat NodeHandlerFunc" where
  "handleLeaveRequest node s = (None, s)"

definition handleLeaveApproval :: "nat NodeHandlerFunc" where
  "handleLeaveApproval node s = (None, s)"

definition handleLeaveComplete :: "nat NodeHandlerFunc" where
  "handleLeaveComplete node s = (None, s)"

definition handleApprovalEdge :: "nat EdgeHandlerFunc" where
  "handleApprovalEdge edge s = ((True, None), s)"

definition handleCompleteEdge :: "nat EdgeHandlerFunc" where
  "handleCompleteEdge edge s = ((True, None), s)"

definition leaveRegistry :: "nat ProcessRegistry" where
  "leaveRegistry =
     RegisterEdgeHandler ''complete'' handleCompleteEdge
       (RegisterEdgeHandler ''approval'' handleApprovalEdge
         (RegisterNodeHandler ''leave_complete'' handleLeaveComplete
           (RegisterNodeHandler ''leave_approval'' handleLeaveApproval
             (RegisterNodeHandler ''leave_request'' handleLeaveRequest NewProcessRegistry))))"

definition leaveHandler :: "nat ProcessHandler" where
  "leaveHandler =
     \<lparr>process = fst (NewProcess createLeaveProcess (Edges createLeaveProcess)),
      registry = leaveRegistry, circulate = None\<rparr>"

text \<open>
  The scenario of two outgoing edges with priorities 2 and 1, declared in the order
  priority 2, priority 1: node \<open>A\<close> with the edge \<open>e_low\<close> to \<open>B\<close> (priority 1) and the
  edge \<open>e_high\<close> to \<open>C\<close> (priority 2).
\<close>

definition node_A :: Node where
  "node_A = \<lparr>Name = ''A'', ID = ''A'', NodeType = ''start'', NodeExtras = []\<rparr>"

definition node_B :: Node where
  "node_B = \<lparr>Name = ''B'', ID = ''B'', NodeType = ''task'', NodeExtras = []\<rparr>"

definition node_C :: Node where
  "node_C = \<lparr>Name = ''C'', ID = ''C'', NodeType = ''task'', NodeExtras = []\<rparr>"

definition e_high :: Edge where
  "e_high = \<lparr>Edge.ID = ''e_high'', DstID = ''C'', SrcID = ''A'',
             Priority = 2, EdgeType = ''reject'', EdgeExtras = []\<rparr>"

definition e_low :: Edge where
  "e_low = \<lparr>Edge.ID = ''e_low'', DstID = ''B'', SrcID = ''A'',
            Priority = 1, EdgeType = ''approve'', EdgeExtras = []\<rparr>"

definition twoEdges :: Process where
  "twoEdges = \<lparr>Nodes = [node_A, node_B, node_C], Edges = [e_high, e_low]\<rparr>"

definition twoEdgesGraph :: Graph where
  "twoEdgesGraph = fst (NewProcess twoEdges [e_low, e_high])"

text \<open>
  Handlers for that scenario. The store counts the handler invocations. \<open>succeed\<close>
  is a node handler that returns \<^verbatim>\<open>nil\<close>, \<open>failWith msg\<close> one that returns an error;
  \<open>decide ok\<close> is an edge handler that returns \<open>ok\<close> and \<^verbatim>\<open>nil\<close>, \<open>decideFail msg\<close> one
  that returns an error.
\<close>

definition succeed :: "nat NodeHandlerFunc" where
  "succeed node s = (None, Suc s)"

definition failWith :: "string \<Rightarrow> nat NodeHandlerFunc" where
  "failWith msg node s = (Some (HandlerFailure msg), Suc s)"

definition decide :: "bool \<Rightarrow> nat EdgeHandlerFunc" where
  "decide ok edge s = ((ok, None), Suc s)"

definition decideFail :: "string \<Rightarrow> nat EdgeHandlerFunc" where
  "decideFail msg edge s = ((False, Some (HandlerFailure msg)), Suc s)"

text \<open>
  \<open>fullRegistry\<close> has every hook: \<open>reject\<close> edges decline and \<open>approve\<close> edges accept.
  \<open>fullHandler\<close> runs it on the two-edge graph with a state-commit callback that
  returns \<^verbatim>\<open>false\<close> and no error.
\<close>

definition fullRegistry :: "nat ProcessRegistry" where
  "fullRegistry =
     RegisterEdgeHandler ''approve'' (decide True)
       (RegisterEdgeHandler ''reject'' (decide False)
         (RegisterNodeBeforeHandler ''task'' succeed
           (RegisterNodeAfterHandler ''start'' succeed
             (RegisterNodeHandler ''task'' succeed
               (RegisterNodeHandler ''start'' succeed NewProcessRegistry)))))"

definition fullHandler :: "nat ProcessHandler" where
  "fullHandler =
     \<lparr>process = twoEdgesGraph, registry = fullRegistry, circulate = Some (decide False)\<rparr>"

text \<open>
  Variants on the same graph: \<open>failingHandler\<close>, where the on-handler of \<open>A\<close>
  returns an error; \<open>emptyHandler\<close>, where nothing is registered;
  \<open>rejectOnlyHandler\<close>, where \<open>approve\<close> edges have no decision-handler; and
  \<open>decliningHandler\<close>, where every decision-handler declines.
\<close>

definition failingHandler :: "nat ProcessHandler" where
  "failingHandler =
     fullHandler\<lparr>registry := RegisterNodeHandler ''start'' (failWith ''refused'') fullRegistry\<rparr>"

definition emptyHandler :: "nat ProcessHandler" where
  "emptyHandler = fullHandler\<lparr>registry := NewProcessRegistry\<rparr>"

definition rejectOnlyHandler :: "nat ProcessHandler" where
  "rejectOnlyHandler =
     fullHandler\<lparr>registry :=
       RegisterEdgeHandler ''reject'' (decide False)
         (RegisterNodeHandler ''start'' succeed NewProcessRegistry)\<rparr>"

definition decliningHandler :: "nat ProcessHandler" where
  "decliningHandler =
     fullHandler\<lparr>registry := RegisterEdgeHandler ''approve'' (decide False) fullRegistry\<rparr>"

text \<open>
  \<open>commitFailsHandler\<close> has no after-handler, and its state-commit callback returns
  an error.
\<close>

definition noAfterRegistry :: "nat ProcessRegistry" where
  "noAfterRegistry =
     RegisterEdgeHandler ''approve'' (decide True)
       (RegisterEdgeHandler ''reject'' (decide False)
         (RegisterNodeBeforeHandler ''task'' succeed
           (RegisterNodeHandler ''task'' succeed
             (RegisterNodeHandler ''start'' succeed NewProcessRegistry))))"

definition commitFailsHandler :: "nat ProcessHandler" where
  "commitFailsHandler =
     \<lparr>process = twoEdgesGraph, registry = noAfterRegistry,
      circulate = Some (decideFail ''commit'')\<rparr>"

section \<open>Lemmas about the graph\<close>

lemma fold_upd_dom: "dom (fold (\<lambda>x m. m(f x \<mapsto> x)) xs m0) = f ` set xs \<union> dom m0"
  by (induction xs arbitrary: m0) auto

lemma fold_upd_Some:
  "fold (\<lambda>x m. m(f x \<mapsto> x)) xs Map.empty k = Some x \<Longrightarrow> x \<in> set xs \<and> f x = k"
  by (induction xs rule: rev_induct) (auto split: if_splits)

lemma outgoing_fold:
  "fold (\<lambda>k es. case m k of None \<Rightarrow> es | Some edge \<Rightarrow> if P edge then es @ [edge] else es) ks acc
     = acc @ filter P (List.map_filter m ks)"
  by (induction ks arbitrary: acc) (auto split: option.splits)

lemma GetOutgoingEdges_filter:
  "GetOutgoingEdges p it nodeID = filter (\<lambda>e. SrcID e = nodeID) (List.map_filter (edges p) it)"
  by (simp add: GetOutgoingEdges_def outgoing_fold)

lemma set_map_filter_range:
  "map_range m ks \<Longrightarrow> set (List.map_filter m ks) = ran m"
  by (auto simp: map_range_def List.map_filter_def ran_def dom_def image_iff) force+

lemma GetOutgoingEdges_set:
  "map_range (edges p) it \<Longrightarrow>
     set (GetOutgoingEdges p it nodeID) = {e \<in> ran (edges p). SrcID e = nodeID}"
  by (auto simp: GetOutgoingEdges_filter set_map_filter_range)

lemma GetOutgoingEdges_none:
  "\<forall>e \<in> ran (edges p). SrcID e \<noteq> nodeID \<Longrightarrow> GetOutgoingEdges p it nodeID = []"
  by (auto simp: GetOutgoingEdges_filter filter_empty_conv List.map_filter_def ran_def)

lemma nextnodes_fold:
  "fold (\<lambda>edge ns. case g edge of None \<Rightarrow> ns | Some n \<Rightarrow> ns @ [n]) es acc
     = acc @ List.map_filter g es"
  by (induction es arbitrary: acc) (auto split: option.splits)

section \<open>Lemmas about the engine\<close>

lemma ProcessEdge_result:
  assumes "ProcessEdge ph edge (s, tr) = ((ok, err), (s', tr'))"
  shows "(GetEdgeHandler (registry ph) (EdgeType edge) = None \<and> \<not> ok
            \<and> err = Some (EdgeHandlerNotFound (EdgeType edge)) \<and> s' = s \<and> tr' = tr)
       \<or> (GetEdgeHandler (registry ph) (EdgeType edge) \<noteq> None
            \<and> tr' = tr @ [DecisionHandler edge ok err])"
  using assms
  by (auto simp: ProcessEdge_def invoke_edge_def split: option.splits prod.splits)

lemma accepted_no_decision:
  assumes "ProcessNode_accepted ph node edge (s, tr) = (r, (s', tr'))"
  shows "\<exists>post. tr' = tr @ post \<and> (\<forall>ev \<in> set post. \<not> is_decision ev)"
  using assms
  by (auto simp: ProcessNode_accepted_def invoke_node_def invoke_edge_def
           split: option.splits prod.splits sum.splits if_splits)

lemma all_decline_append:
  "all_decline ph pre w = Some w1 \<Longrightarrow>
     ProcessNode_edges ph node (pre @ rest) w = ProcessNode_edges ph node rest w1"
  by (induction pre arbitrary: w) (auto split: prod.splits option.splits if_splits)

lemma all_decline_trace:
  "all_decline ph pre (s, tr) = Some (s1, tr1) \<Longrightarrow> tr1 = tr @ map declined pre"
proof (induction pre arbitrary: s tr)
  case Nil
  then show ?case by simp
next
  case (Cons e pre)
  obtain ok err s2 tr2 where pe: "ProcessEdge ph e (s, tr) = ((ok, err), (s2, tr2))"
    by (metis surj_pair)
  with Cons.prems have d: "\<not> ok" "err = None" and rest: "all_decline ph pre (s2, tr2) = Some (s1, tr1)"
    by (auto split: option.splits if_splits)
  from pe d have "tr2 = tr @ [declined e]"
    by (auto simp: declined_def dest!: ProcessEdge_result)
  with Cons.IH[OF rest] show ?case by simp
qed

lemma edges_run:
  assumes "ProcessNode_edges ph node es (s, tr) = (r, (s', tr'))"
  shows "\<exists>k sk. k \<le> length es \<and>
           all_decline ph (take k es) (s, tr) = Some (sk, tr @ map declined (take k es)) \<and>
           ((k = length es \<and> r = None \<and> s' = sk \<and> tr' = tr @ map declined es)
          \<or> (k < length es \<and> (\<exists>ok err. ProcessEdge ph (es ! k) (sk, tr @ map declined (take k es))
                 = ((ok, Some err), (s', tr')) \<and> r = Some err))
          \<or> (k < length es \<and> (\<exists>s1. ProcessEdge ph (es ! k) (sk, tr @ map declined (take k es))
                 = ((True, None), (s1, tr @ map declined (take k es) @ [DecisionHandler (es ! k) True None]))
               \<and> ProcessNode_accepted ph node (es ! k)
                    (s1, tr @ map declined (take k es) @ [DecisionHandler (es ! k) True None])
                  = (r, (s', tr')))))"
  using assms
proof (induction es arbitrary: s tr)
  case Nil
  then show ?case by simp
next
  case (Cons e es)
  obtain ok err s1 tr1 where pe: "ProcessEdge ph e (s, tr) = ((ok, err), (s1, tr1))"
    by (metis surj_pair)
  show ?case
  proof (cases err)
    case (Some x)
    with pe Cons.prems have "r = Some x" "s' = s1" "tr' = tr1" by auto
    with pe Some show ?thesis
      by (intro exI[of _ 0] exI[of _ s]) auto
  next
    case None
    note eN = None
    show ?thesis
    proof (cases ok)
      case True
      with pe eN have tr1: "tr1 = tr @ [DecisionHandler e True None]"
        by (auto dest!: ProcessEdge_result)
      from True pe eN Cons.prems
      have "ProcessNode_accepted ph node e (s1, tr1) = (r, (s', tr'))" by simp
      with pe True eN tr1 show ?thesis
        by (intro exI[of _ 0] exI[of _ s]) auto
    next
      case False
      with pe eN have tr1: "tr1 = tr @ [declined e]"
        by (auto simp: declined_def dest!: ProcessEdge_result)
      from False pe eN Cons.prems
      have "ProcessNode_edges ph node es (s1, tr1) = (r, (s', tr'))" by simp
      from Cons.IH[OF this] obtain k sk where
        k: "k \<le> length es"
        and ad: "all_decline ph (take k es) (s1, tr1) = Some (sk, tr1 @ map declined (take k es))"
        and cs: "(k = length es \<and> r = None \<and> s' = sk \<and> tr' = tr1 @ map declined es)
          \<or> (k < length es \<and> (\<exists>ok err. ProcessEdge ph (es ! k) (sk, tr1 @ map declined (take k es))
                 = ((ok, Some err), (s', tr')) \<and> r = Some err))
          \<or> (k < length es \<and> (\<exists>s2. ProcessEdge ph (es ! k) (sk, tr1 @ map declined (take k es))
                 = ((True, None), (s2, tr1 @ map declined (take k es) @ [DecisionHandler (es ! k) True None]))
               \<and> ProcessNode_accepted ph node (es ! k)
                    (s2, tr1 @ map declined (take k es) @ [DecisionHandler (es ! k) True None])
                  = (r, (s', tr'))))"
        by blast
      have ad': "all_decline ph (take (Suc k) (e # es)) (s, tr)
                  = Some (sk, tr @ map declined (take (Suc k) (e # es)))"
        using ad pe eN False tr1 by simp
      show ?thesis
        using k ad' cs tr1
        by (intro exI[of _ "Suc k"] exI[of _ sk]) auto
    qed
  qed
qed

lemma split_unique:
  "a \<notin> set xs' \<Longrightarrow> a \<notin> set ys' \<Longrightarrow> xs @ a # ys = xs' @ b # ys' \<Longrightarrow> xs = xs' \<and> a = b \<and> ys = ys'"
proof (induction xs arbitrary: xs')
  case Nil
  then show ?case by (cases xs') auto
next
  case (Cons x xs)
  then show ?case by (cases xs') auto
qed

lemma accepted_hooks:
  assumes "ProcessNode_accepted ph node e (s, tr) = (r, (s', tr'))"
  shows "\<exists>post. tr' = tr @ post \<and>
     (GetNodeAfterHandler (registry ph) (NodeType node) \<noteq> None
         \<and> (\<exists>err. post = [AfterHandler node (Some err)] \<and> r = Some err)
    \<or> circulate ph \<noteq> None
         \<and> (\<exists>ok err. post = after_log ph node @ [StateCommit e ok (Some err)] \<and> r = Some err)
    \<or> (\<exists>ok. post = after_log ph node @ commit_log ph e ok
           \<and> GetNodeByID (process ph) (DstID e) = None \<and> r = Some (TargetNodeNotFound (Edge.ID e)))
    \<or> (\<exists>ok dst. post = after_log ph node @ commit_log ph e ok
           \<and> GetNodeByID (process ph) (DstID e) = Some dst
           \<and> GetNodeBeforeHandler (registry ph) (NodeType dst) = None \<and> r = None)
    \<or> (\<exists>ok dst. post = after_log ph node @ commit_log ph e ok @ [BeforeHandler dst r]
           \<and> GetNodeByID (process ph) (DstID e) = Some dst
           \<and> GetNodeBeforeHandler (registry ph) (NodeType dst) \<noteq> None))"
proof -
  obtain ra sa tra where a:
    "(case GetNodeAfterHandler (registry ph) (NodeType node) of
              None \<Rightarrow> (None, (s, tr))
            | Some nodeAfterHandler \<Rightarrow> invoke_node AfterHandler nodeAfterHandler node (s, tr))
      = (ra, (sa, tra))"
    by (metis surj_pair)
  show ?thesis
  proof (cases ra)
    case (Some x)
    with a assms show ?thesis
      by (auto simp: ProcessNode_accepted_def invoke_node_def split: option.splits prod.splits)
  next
    case None
    with a have tra: "tra = tr @ after_log ph node"
      by (auto simp: after_log_def invoke_node_def split: option.splits prod.splits)
    obtain ok rc sc trc where c:
      "(case circulate ph of
                   None \<Rightarrow> ((True, None), (sa, tra))
                 | Some c \<Rightarrow> invoke_edge StateCommit c e (sa, tra)) = ((ok, rc), (sc, trc))"
      by (metis surj_pair)
    show ?thesis
    proof (cases rc)
      case (Some x)
      with c have "circulate ph \<noteq> None" "trc = tra @ [StateCommit e ok (Some x)]"
        by (auto simp: invoke_edge_def split: option.splits prod.splits)
      moreover from Some a None c assms have "r = Some x" "tr' = trc"
        by (auto simp: ProcessNode_accepted_def)
      ultimately show ?thesis using tra by auto
    next
      case rcN: None
      have "\<exists>ok'. trc = tra @ commit_log ph e ok'"
        using c rcN by (auto simp: commit_log_def invoke_edge_def split: option.splits prod.splits)
      then obtain ok' where trc: "trc = tr @ after_log ph node @ commit_log ph e ok'"
        using tra by auto
      from a None c rcN assms have rest:
        "(case GetNextNodeByEdge (process ph) e of
                  Inl err \<Rightarrow> (Some err, (sc, trc))
                | Inr nextNode \<Rightarrow>
                    (case GetNodeBeforeHandler (registry ph) (NodeType nextNode) of
                       None \<Rightarrow> (None, (sc, trc))
                     | Some nodeBeforeHandler \<Rightarrow>
                         invoke_node BeforeHandler nodeBeforeHandler nextNode (sc, trc)))
          = (r, (s', tr'))"
        by (simp add: ProcessNode_accepted_def)
      show ?thesis
      proof (cases "GetNodeByID (process ph) (DstID e)")
        case dN: None
        with rest have "r = Some (TargetNodeNotFound (Edge.ID e))" "tr' = trc"
          by (auto simp: GetNextNodeByEdge_def)
        with dN trc show ?thesis by blast
      next
        case (Some dst)
        note dS = Some
        show ?thesis
        proof (cases "GetNodeBeforeHandler (registry ph) (NodeType dst)")
          case bN: None
          with rest dS have "r = None" "tr' = trc"
            by (auto simp: GetNextNodeByEdge_def)
          with dS bN trc show ?thesis by blast
        next
          case (Some hb)
          with rest dS have "tr' = trc @ [BeforeHandler dst r]"
            by (auto simp: GetNextNodeByEdge_def invoke_node_def split: prod.splits)
          with trc have "tr' = tr @ after_log ph node @ commit_log ph e ok' @ [BeforeHandler dst r]"
            by simp
          with dS Some show ?thesis by blast
        qed
      qed
    qed
  qed
qed

lemma ProcessNode_on_ok:
  assumes "GetNodeByID (process ph) nodeID = Some node"
      and "GetNodeHandler (registry ph) (NodeType node) = Some h"
      and "h node s = (None, s1)"
  shows "ProcessNode ph it nodeID (s, tr) =
           ProcessNode_edges ph node (GetOutgoingEdges (process ph) it nodeID)
             (s1, tr @ [OnHandler node None])"
  using assms by (simp add: ProcessNode_def invoke_node_def)

lemma NewProcess_nodes_dom:
  "dom (nodes (fst (NewProcess pd ys))) = Node.ID ` set (Nodes pd)"
  by (simp add: NewProcess_def fold_upd_dom)

lemma NewProcess_nodes_None:
  "nodes (fst (NewProcess pd ys)) k = None \<longleftrightarrow> k \<notin> Node.ID ` set (Nodes pd)"
  unfolding NewProcess_nodes_dom[of pd ys, symmetric] by (simp add: domIff)

lemma NewProcess_nodes_Some:
  "nodes (fst (NewProcess pd ys)) k = Some n \<Longrightarrow> n \<in> set (Nodes pd) \<and> Node.ID n = k"
  using fold_upd_Some[of Node.ID "Nodes pd" k n] by (simp add: NewProcess_def)

lemma sort_Slice_priorities:
  "sort_Slice NewProcess_less xs ys \<longleftrightarrow> mset ys = mset xs \<and> sorted (map Priority ys)"
  by (simp add: sort_Slice_def NewProcess_less_def sorted_map not_less)

lemma sorted_perm_unique:
  fixes xs ys :: "Edge list"
  assumes "mset ys = mset xs" "sorted (map Priority ys)" "sorted_wrt (<) (map Priority xs)"
  shows "ys = xs"
proof -
  from assms(3) have sx: "sorted (map Priority xs)" and dx: "distinct (map Priority xs)"
    by (simp_all add: strict_sorted_iff)
  from assms(1) have m: "mset (map Priority ys) = mset (map Priority xs)" by simp
  have "map Priority ys = map Priority xs"
    using m sx assms(2) by (metis properties_for_sort sorted_sort_id)
  moreover from dx have "inj_on Priority (set xs)" by (simp add: distinct_map)
  moreover from assms(1) have "set ys = set xs" by (metis set_mset_mset)
  ultimately show ?thesis by (metis inj_on_map_eq_map sup.idem)
qed

lemma accepted_with_ok:
  "outcome (ProcessNode_accepted (ph\<lparr>circulate := Some (with_ok f c)\<rparr>) node edge w)
     = outcome (ProcessNode_accepted (ph\<lparr>circulate := Some c\<rparr>) node edge w)"
  by (auto simp: outcome_def ProcessNode_accepted_def invoke_node_def invoke_edge_def with_ok_def
           split: option.splits prod.splits sum.splits)

lemma ProcessEdge_circulate:
  "ProcessEdge (ph\<lparr>circulate := x\<rparr>) edge w = ProcessEdge ph edge w"
  by (simp add: ProcessEdge_def)

lemma edges_with_ok:
  "outcome (ProcessNode_edges (ph\<lparr>circulate := Some (with_ok f c)\<rparr>) node es w)
     = outcome (ProcessNode_edges (ph\<lparr>circulate := Some c\<rparr>) node es w)"
proof (induction es arbitrary: w)
  case Nil
  then show ?case by simp
next
  case (Cons e es)
  then show ?case
    by (auto simp: ProcessEdge_circulate accepted_with_ok split: prod.splits option.splits)
qed

text \<open>Unfolding sets for evaluating the functions on the example inputs.\<close>

lemmas graph_defs = NewProcess_def GetNodeByID_def GetOutgoingEdges_def GetNextNodes_def
  GetNextNodeByEdge_def map_range_def
lemmas registry_defs = NewProcessRegistry_def RegisterNodeHandler_def RegisterNodeAfterHandler_def
  RegisterNodeBeforeHandler_def RegisterEdgeHandler_def GetNodeHandler_def GetNodeAfterHandler_def
  GetNodeBeforeHandler_def GetEdgeHandler_def
lemmas engine_defs = ProcessNode_def ProcessEdge_def ProcessNode_accepted_def invoke_node_def
  invoke_edge_def
lemmas example_defs = twoEdgesGraph_def twoEdges_def node_A_def node_B_def node_C_def e_high_def
  e_low_def fullHandler_def fullRegistry_def succeed_def failWith_def decide_def decideFail_def
  failingHandler_def emptyHandler_def rejectOnlyHandler_def decliningHandler_def
  noAfterRegistry_def commitFailsHandler_def

section \<open>The tests of the repository\<close>

text \<open>
  \<^verbatim>\<open>TestIntegrationLeaveProcess\<close> expects every \<^verbatim>\<open>ProcessNode\<close> call to return \<^verbatim>\<open>nil\<close>
  and every \<^verbatim>\<open>ProcessEdge\<close> call to return \<^verbatim>\<open>true\<close> and \<^verbatim>\<open>nil\<close>. The model agrees,
  whichever way the loop visits the two edges.
\<close>

lemmas leave_defs = createLeaveProcess_def emptyExtras_def handleLeaveRequest_def
  handleLeaveApproval_def handleLeaveComplete_def handleApprovalEdge_def handleCompleteEdge_def
  leaveRegistry_def leaveHandler_def

lemma TestIntegrationLeaveProcess_nodes:
  "fst (ProcessNode leaveHandler [''approval_edge'', ''complete_edge''] ''leave_request'' (s, [])) = None"
  "fst (ProcessNode leaveHandler [''complete_edge'', ''approval_edge''] ''leave_request'' (s, [])) = None"
  "fst (ProcessNode leaveHandler [''approval_edge'', ''complete_edge''] ''leave_approval'' (s, [])) = None"
  "fst (ProcessNode leaveHandler [''approval_edge'', ''complete_edge''] ''leave_complete'' (s, [])) = None"
  by (simp_all add: graph_defs registry_defs engine_defs leave_defs)

lemma TestIntegrationLeaveProcess_edges:
  "fst (ProcessEdge leaveHandler (Edges createLeaveProcess ! 0) (s, [])) = (True, None)"
  "fst (ProcessEdge leaveHandler (Edges createLeaveProcess ! 1) (s, [])) = (True, None)"
  by (simp_all add: registry_defs engine_defs leave_defs)

section \<open>Outgoing edges and their order\<close>

text \<open>
  Claim C1. \<^verbatim>\<open>GetOutgoingEdges\<close> returns the edges of the graph whose source is the
  node (\<open>GetOutgoingEdges_set\<close>), and the empty list when there are none
  (\<open>GetOutgoingEdges_none\<close>), but in the order in which its loop happens to visit the
  map: nothing sorts them by priority. The graph built from the definition with the
  priority-2 edge declared before the priority-1 edge has the two edge IDs as keys;
  visiting \<open>e_high\<close> first is one of the possible orders, and in that run the call
  for node \<open>A\<close> returns the priority-2 edge before the priority-1 edge, a list that
  is not ascending by priority.
\<close>

theorem GetOutgoingEdges_unsorted:
  "map_range (edges twoEdgesGraph) [''e_high'', ''e_low'']
 \<and> GetOutgoingEdges twoEdgesGraph [''e_high'', ''e_low''] ''A'' = [e_high, e_low]
 \<and> map Priority (GetOutgoingEdges twoEdgesGraph [''e_high'', ''e_low''] ''A'') = [2, 1]
 \<and> \<not> sorted (map Priority (GetOutgoingEdges twoEdgesGraph [''e_high'', ''e_low''] ''A''))"
  by (simp add: graph_defs example_defs insert_commute)

section \<open>The order of the decision-handlers\<close>

text \<open>
  Claim C2. Take a step whose node exists and whose on-handler is registered and
  returns no error, and let \<open>es\<close> be what \<^verbatim>\<open>GetOutgoingEdges\<close> returned to it. The
  log of the step is the on-handler, then the decision-handlers of the first \<open>k\<close>
  edges of \<open>es\<close> in that order, each of which declined, then one of four endings:
  nothing more, every edge having declined, and the step succeeds; nothing more,
  edge \<open>k\<close> having no decision-handler, and the step fails with that error; the
  decision-handler of edge \<open>k\<close> returning an error, which ends the log and is the
  result of the step; or the decision-handler of edge \<open>k\<close> accepting, after which
  no decision-handler appears in the log any more.
\<close>

theorem ProcessNode_decision_order:
  assumes "GetNodeByID (process ph) nodeID = Some node"
      and "GetNodeHandler (registry ph) (NodeType node) = Some h"
      and "h node s = (None, s1)"
      and "ProcessNode ph it nodeID (s, tr) = (r, (s', tr'))"
      and "es = GetOutgoingEdges (process ph) it nodeID"
  shows "\<exists>k rest. k \<le> length es \<and>
           tr' = tr @ OnHandler node None # map declined (take k es) @ rest \<and>
           (k = length es \<and> rest = [] \<and> r = None
          \<or> k < length es \<and> GetEdgeHandler (registry ph) (EdgeType (es ! k)) = None \<and> rest = []
               \<and> r = Some (EdgeHandlerNotFound (EdgeType (es ! k)))
          \<or> k < length es \<and> (\<exists>ok err. rest = [DecisionHandler (es ! k) ok (Some err)] \<and> r = Some err)
          \<or> k < length es \<and> (\<exists>post. rest = DecisionHandler (es ! k) True None # post
               \<and> (\<forall>ev \<in> set post. \<not> is_decision ev)))"
proof -
  let ?tr1 = "tr @ [OnHandler node None]"
  from assms have run: "ProcessNode_edges ph node es (s1, ?tr1) = (r, (s', tr'))"
    by (simp add: ProcessNode_on_ok)
  from edges_run[OF run] obtain k sk where
    k: "k \<le> length es"
    and cs: "(k = length es \<and> r = None \<and> s' = sk \<and> tr' = ?tr1 @ map declined es)
          \<or> (k < length es \<and> (\<exists>ok err. ProcessEdge ph (es ! k) (sk, ?tr1 @ map declined (take k es))
                 = ((ok, Some err), (s', tr')) \<and> r = Some err))
          \<or> (k < length es \<and> (\<exists>s2. ProcessEdge ph (es ! k) (sk, ?tr1 @ map declined (take k es))
                 = ((True, None), (s2, ?tr1 @ map declined (take k es) @ [DecisionHandler (es ! k) True None]))
               \<and> ProcessNode_accepted ph node (es ! k)
                    (s2, ?tr1 @ map declined (take k es) @ [DecisionHandler (es ! k) True None])
                  = (r, (s', tr'))))"
    by blast
  from cs consider
      (all) "k = length es" "r = None" "tr' = ?tr1 @ map declined es"
    | (err) ok err where "k < length es" "r = Some err"
        "ProcessEdge ph (es ! k) (sk, ?tr1 @ map declined (take k es)) = ((ok, Some err), (s', tr'))"
    | (acc) s2 where "k < length es"
        "ProcessNode_accepted ph node (es ! k)
           (s2, ?tr1 @ map declined (take k es) @ [DecisionHandler (es ! k) True None]) = (r, (s', tr'))"
    by blast
  then show ?thesis
  proof cases
    case all
    then show ?thesis by (intro exI[of _ k] exI[of _ "[]"]) simp
  next
    case err
    from ProcessEdge_result[OF err(3)] show ?thesis
    proof
      assume "GetEdgeHandler (registry ph) (EdgeType (es ! k)) = None \<and> \<not> ok
            \<and> Some err = Some (EdgeHandlerNotFound (EdgeType (es ! k))) \<and> s' = sk
            \<and> tr' = ?tr1 @ map declined (take k es)"
      with err show ?thesis by (intro exI[of _ k] exI[of _ "[]"]) simp
    next
      assume "GetEdgeHandler (registry ph) (EdgeType (es ! k)) \<noteq> None
            \<and> tr' = (?tr1 @ map declined (take k es)) @ [DecisionHandler (es ! k) ok (Some err)]"
      with err show ?thesis
        by (intro exI[of _ k] exI[of _ "[DecisionHandler (es ! k) ok (Some err)]"]) simp
    qed
  next
    case acc
    from accepted_no_decision[OF acc(2)] obtain post where
      "tr' = (?tr1 @ map declined (take k es) @ [DecisionHandler (es ! k) True None]) @ post"
      "\<forall>ev \<in> set post. \<not> is_decision ev" by blast
    with acc show ?thesis
      by (intro exI[of _ k] exI[of _ "DecisionHandler (es ! k) True None # post"]) simp
  qed
qed

theorem ProcessNode_decision_order_witness:
  "ProcessNode fullHandler [''e_high'', ''e_low''] ''A'' (0, []) =
     (None, (6, [OnHandler node_A None, DecisionHandler e_high False None,
                 DecisionHandler e_low True None, AfterHandler node_A None,
                 StateCommit e_low False None, BeforeHandler node_B None])) \<and>
   (\<exists>k rest. k \<le> length [e_high, e_low] \<and>
      [OnHandler node_A None, DecisionHandler e_high False None,
       DecisionHandler e_low True None, AfterHandler node_A None,
       StateCommit e_low False None, BeforeHandler node_B None]
        = [] @ OnHandler node_A None # map declined (take k [e_high, e_low]) @ rest \<and>
      (k = length [e_high, e_low] \<and> rest = [] \<and> (None :: error option) = None
       \<or> k < length [e_high, e_low]
           \<and> GetEdgeHandler (registry fullHandler) (EdgeType ([e_high, e_low] ! k)) = None \<and> rest = []
           \<and> None = Some (EdgeHandlerNotFound (EdgeType ([e_high, e_low] ! k)))
       \<or> k < length [e_high, e_low]
           \<and> (\<exists>ok err. rest = [DecisionHandler ([e_high, e_low] ! k) ok (Some err)] \<and> None = Some err)
       \<or> k < length [e_high, e_low]
           \<and> (\<exists>post. rest = DecisionHandler ([e_high, e_low] ! k) True None # post
                 \<and> (\<forall>ev \<in> set post. \<not> is_decision ev))))"
proof -
  have h1: "GetNodeByID (process fullHandler) ''A'' = Some node_A"
    by (simp add: graph_defs example_defs)
  have h2: "GetNodeHandler (registry fullHandler) (NodeType node_A) = Some succeed"
    by (simp add: registry_defs fullHandler_def fullRegistry_def node_A_def)
  have h3: "succeed node_A 0 = (None, 1)"
    by (simp add: succeed_def)
  have h4: "ProcessNode fullHandler [''e_high'', ''e_low''] ''A'' (0, []) =
     (None, (6, [OnHandler node_A None, DecisionHandler e_high False None,
                 DecisionHandler e_low True None, AfterHandler node_A None,
                 StateCommit e_low False None, BeforeHandler node_B None]))"
    by (simp add: graph_defs registry_defs engine_defs example_defs)
  have h5: "[e_high, e_low] = GetOutgoingEdges (process fullHandler) [''e_high'', ''e_low''] ''A''"
    by (simp add: graph_defs example_defs)
  from ProcessNode_decision_order[OF h1 h2 h3 h4 h5] h4 show ?thesis by blast
qed

section \<open>The hooks of an accepted edge\<close>

text \<open>
  Claim C3. Take a step, started with an empty log, whose log shows that the
  decision-handler of the edge \<open>e\<close> accepted. The after-handler of the node, the
  state-commit callback and the before-handler of the destination are each
  optional; those that are present run in that order, each at most once, and none
  runs after one of them failed. What the log holds after the accepting decision is
  one of:
  \<^item> the after-handler of the node alone, which failed, and its error is the result;
  \<^item> the successful after-handler, if one is registered, then the state-commit
    callback for \<open>e\<close>, which failed, and its error is the result;
  \<^item> the successful after-handler and the successful callback, as far as present,
    and nothing else, when the destination of \<open>e\<close> is not in the graph (the step
    fails with that error) or has no before-handler (the step succeeds);
  \<^item> the successful after-handler and the successful callback, as far as present,
    and then the before-handler of the destination, whose result is the result of
    the step.
  The witness runs the step with all three present, with no after-handler and a
  failing callback, and in the configuration of the repository's test, which has
  none of the three.
\<close>

theorem ProcessNode_accept_order:
  assumes "GetNodeByID (process ph) nodeID = Some node"
      and "ProcessNode ph it nodeID (s, []) = (r, (s', pre @ DecisionHandler e True None # post))"
  shows "GetNodeAfterHandler (registry ph) (NodeType node) \<noteq> None
         \<and> (\<exists>err. post = [AfterHandler node (Some err)] \<and> r = Some err)
    \<or> circulate ph \<noteq> None
         \<and> (\<exists>ok err. post = after_log ph node @ [StateCommit e ok (Some err)] \<and> r = Some err)
    \<or> (\<exists>ok. post = after_log ph node @ commit_log ph e ok
           \<and> GetNodeByID (process ph) (DstID e) = None \<and> r = Some (TargetNodeNotFound (Edge.ID e)))
    \<or> (\<exists>ok dst. post = after_log ph node @ commit_log ph e ok
           \<and> GetNodeByID (process ph) (DstID e) = Some dst
           \<and> GetNodeBeforeHandler (registry ph) (NodeType dst) = None \<and> r = None)
    \<or> (\<exists>ok dst. post = after_log ph node @ commit_log ph e ok @ [BeforeHandler dst r]
           \<and> GetNodeByID (process ph) (DstID e) = Some dst
           \<and> GetNodeBeforeHandler (registry ph) (NodeType dst) \<noteq> None)"
proof -
  let ?a = "DecisionHandler e True None"
  let ?es = "GetOutgoingEdges (process ph) it nodeID"
  let ?full = "pre @ ?a # post"
  obtain h where h: "GetNodeHandler (registry ph) (NodeType node) = Some h"
    using assms by (cases "GetNodeHandler (registry ph) (NodeType node)") (auto simp: ProcessNode_def)
  obtain r1 s1 where hs: "h node s = (r1, s1)" by (metis surj_pair)
  have "r1 = None"
  proof (cases r1)
    case (Some x)
    with assms h hs have False
      by (auto simp: ProcessNode_def invoke_node_def Cons_eq_append_conv)
    then show ?thesis ..
  qed simp
  with hs have hs: "h node s = (None, s1)" by simp
  let ?tr1 = "[] @ [OnHandler node None]"
  from assms h hs have run: "ProcessNode_edges ph node ?es (s1, ?tr1) = (r, (s', ?full))"
    using ProcessNode_on_ok[OF assms(1) h hs, of it "[]"] by simp
  from edges_run[OF run] obtain k sk where
    cs: "(k = length ?es \<and> r = None \<and> s' = sk \<and> ?full = ?tr1 @ map declined ?es)
          \<or> (k < length ?es \<and> (\<exists>ok err. ProcessEdge ph (?es ! k) (sk, ?tr1 @ map declined (take k ?es))
                 = ((ok, Some err), (s', ?full)) \<and> r = Some err))
          \<or> (k < length ?es \<and> (\<exists>s2. ProcessEdge ph (?es ! k) (sk, ?tr1 @ map declined (take k ?es))
                 = ((True, None), (s2, ?tr1 @ map declined (take k ?es) @ [DecisionHandler (?es ! k) True None]))
               \<and> ProcessNode_accepted ph node (?es ! k)
                    (s2, ?tr1 @ map declined (take k ?es) @ [DecisionHandler (?es ! k) True None])
                  = (r, (s', ?full))))"
    by blast
  have notin: "?a \<notin> set (?tr1 @ map declined xs)" for xs
    by (auto simp: declined_def)
  from cs consider
      (all) "?full = ?tr1 @ map declined ?es"
    | (err) ok err where
        "ProcessEdge ph (?es ! k) (sk, ?tr1 @ map declined (take k ?es)) = ((ok, Some err), (s', ?full))"
    | (acc) s2 where
        "ProcessNode_accepted ph node (?es ! k)
           (s2, ?tr1 @ map declined (take k ?es) @ [DecisionHandler (?es ! k) True None]) = (r, (s', ?full))"
    by blast
  then show ?thesis
  proof cases
    case all
    have "?a \<in> set ?full" by simp
    with all have "?a \<in> set (?tr1 @ map declined ?es)" by simp
    with notin show ?thesis by blast
  next
    case err
    from ProcessEdge_result[OF err]
    have "?full = ?tr1 @ map declined (take k ?es)
        \<or> ?full = (?tr1 @ map declined (take k ?es)) @ [DecisionHandler (?es ! k) ok (Some err)]"
      by blast
    moreover have "?a \<in> set ?full" by simp
    ultimately have "?a \<in> set (?tr1 @ map declined (take k ?es))
        \<or> ?a \<in> set ((?tr1 @ map declined (take k ?es)) @ [DecisionHandler (?es ! k) ok (Some err)])"
      by metis
    then have "?a \<in> set (?tr1 @ map declined (take k ?es))"
      by auto
    with notin show ?thesis by blast
  next
    case acc
    from accepted_no_decision[OF acc] obtain post' where
      p1: "?full = (?tr1 @ map declined (take k ?es) @ [DecisionHandler (?es ! k) True None]) @ post'"
      and p2: "\<forall>ev \<in> set post'. \<not> is_decision ev" by blast
    from p2 have n2: "?a \<notin> set post'" by auto
    from p1 have "pre @ ?a # post = (?tr1 @ map declined (take k ?es)) @ DecisionHandler (?es ! k) True None # post'"
      by simp
    from split_unique[OF notin n2 this] have eq: "e = ?es ! k" "post = post'" by auto
    from acc eq have acc': "ProcessNode_accepted ph node e
           (s2, ?tr1 @ map declined (take k ?es) @ [?a]) = (r, (s', ?full))" by simp
    from accepted_hooks[OF acc'] obtain post2 where
      q1: "?full = (?tr1 @ map declined (take k ?es) @ [?a]) @ post2"
      and q2: "GetNodeAfterHandler (registry ph) (NodeType node) \<noteq> None
         \<and> (\<exists>err. post2 = [AfterHandler node (Some err)] \<and> r = Some err)
    \<or> circulate ph \<noteq> None
         \<and> (\<exists>ok err. post2 = after_log ph node @ [StateCommit e ok (Some err)] \<and> r = Some err)
    \<or> (\<exists>ok. post2 = after_log ph node @ commit_log ph e ok
           \<and> GetNodeByID (process ph) (DstID e) = None \<and> r = Some (TargetNodeNotFound (Edge.ID e)))
    \<or> (\<exists>ok dst. post2 = after_log ph node @ commit_log ph e ok
           \<and> GetNodeByID (process ph) (DstID e) = Some dst
           \<and> GetNodeBeforeHandler (registry ph) (NodeType dst) = None \<and> r = None)
    \<or> (\<exists>ok dst. post2 = after_log ph node @ commit_log ph e ok @ [BeforeHandler dst r]
           \<and> GetNodeByID (process ph) (DstID e) = Some dst
           \<and> GetNodeBeforeHandler (registry ph) (NodeType dst) \<noteq> None)"
      by blast
    from q1 p1 eq have "post2 = post" by simp
    with q2 show ?thesis by simp
  qed
qed

theorem ProcessNode_accept_order_witness:
  "GetNodeByID (process fullHandler) ''A'' = Some node_A
 \<and> ProcessNode fullHandler [''e_high'', ''e_low''] ''A'' (0, [])
     = (None, (6, [OnHandler node_A None, DecisionHandler e_high False None]
          @ DecisionHandler e_low True None # [AfterHandler node_A None, StateCommit e_low False None, BeforeHandler node_B None]))
 \<and> (GetNodeAfterHandler (registry fullHandler) (NodeType node_A) \<noteq> None
         \<and> (\<exists>err. [AfterHandler node_A None, StateCommit e_low False None, BeforeHandler node_B None] = [AfterHandler node_A (Some err)] \<and> (None :: error option) = Some err)
    \<or> circulate fullHandler \<noteq> None
         \<and> (\<exists>ok err. [AfterHandler node_A None, StateCommit e_low False None, BeforeHandler node_B None] = after_log fullHandler node_A @ [StateCommit e_low ok (Some err)] \<and> (None :: error option) = Some err)
    \<or> (\<exists>ok. [AfterHandler node_A None, StateCommit e_low False None, BeforeHandler node_B None] = after_log fullHandler node_A @ commit_log fullHandler e_low ok
           \<and> GetNodeByID (process fullHandler) (DstID e_low) = None \<and> (None :: error option) = Some (TargetNodeNotFound (Edge.ID e_low)))
    \<or> (\<exists>ok dst. [AfterHandler node_A None, StateCommit e_low False None, BeforeHandler node_B None] = after_log fullHandler node_A @ commit_log fullHandler e_low ok
           \<and> GetNodeByID (process fullHandler) (DstID e_low) = Some dst
           \<and> GetNodeBeforeHandler (registry fullHandler) (NodeType dst) = None \<and> (None :: error option) = None)
    \<or> (\<exists>ok dst. [AfterHandler node_A None, StateCommit e_low False None, BeforeHandler node_B None] = after_log fullHandler node_A @ commit_log fullHandler e_low ok @ [BeforeHandler dst (None :: error option)]
           \<and> GetNodeByID (process fullHandler) (DstID e_low) = Some dst
           \<and> GetNodeBeforeHandler (registry fullHandler) (NodeType dst) \<noteq> None))
 \<and> GetNodeByID (process commitFailsHandler) ''A'' = Some node_A
 \<and> ProcessNode commitFailsHandler [''e_high'', ''e_low''] ''A'' (0, [])
     = (Some (HandlerFailure ''commit''), (4, [OnHandler node_A None, DecisionHandler e_high False None]
          @ DecisionHandler e_low True None # [StateCommit e_low False (Some (HandlerFailure ''commit''))]))
 \<and> (GetNodeAfterHandler (registry commitFailsHandler) (NodeType node_A) \<noteq> None
         \<and> (\<exists>err. [StateCommit e_low False (Some (HandlerFailure ''commit''))] = [AfterHandler node_A (Some err)] \<and> Some (HandlerFailure ''commit'') = Some err)
    \<or> circulate commitFailsHandler \<noteq> None
         \<and> (\<exists>ok err. [StateCommit e_low False (Some (HandlerFailure ''commit''))] = after_log commitFailsHandler node_A @ [StateCommit e_low ok (Some err)] \<and> Some (HandlerFailure ''commit'') = Some err)
    \<or> (\<exists>ok. [StateCommit e_low False (Some (HandlerFailure ''commit''))] = after_log commitFailsHandler node_A @ commit_log commitFailsHandler e_low ok
           \<and> GetNodeByID (process commitFailsHandler) (DstID e_low) = None \<and> Some (HandlerFailure ''commit'') = Some (TargetNodeNotFound (Edge.ID e_low)))
    \<or> (\<exists>ok dst. [StateCommit e_low False (Some (HandlerFailure ''commit''))] = after_log commitFailsHandler node_A @ commit_log commitFailsHandler e_low ok
           \<and> GetNodeByID (process commitFailsHandler) (DstID e_low) = Some dst
           \<and> GetNodeBeforeHandler (registry commitFailsHandler) (NodeType dst) = None \<and> Some (HandlerFailure ''commit'') = None)
    \<or> (\<exists>ok dst. [StateCommit e_low False (Some (HandlerFailure ''commit''))] = after_log commitFailsHandler node_A @ commit_log commitFailsHandler e_low ok @ [BeforeHandler dst (Some (HandlerFailure ''commit''))]
           \<and> GetNodeByID (process commitFailsHandler) (DstID e_low) = Some dst
           \<and> GetNodeBeforeHandler (registry commitFailsHandler) (NodeType dst) \<noteq> None))
 \<and> GetNodeByID (process leaveHandler) ''leave_request'' = Some (Nodes createLeaveProcess ! 0)
 \<and> ProcessNode leaveHandler [''approval_edge'', ''complete_edge''] ''leave_request'' (0, [])
     = (None, (0, [OnHandler (Nodes createLeaveProcess ! 0) None]
          @ DecisionHandler (Edges createLeaveProcess ! 0) True None # ([] :: event list)))
 \<and> (GetNodeAfterHandler (registry leaveHandler) (NodeType (Nodes createLeaveProcess ! 0)) \<noteq> None
         \<and> (\<exists>err. ([] :: event list) = [AfterHandler (Nodes createLeaveProcess ! 0) (Some err)] \<and> (None :: error option) = Some err)
    \<or> circulate leaveHandler \<noteq> None
         \<and> (\<exists>ok err. ([] :: event list) = after_log leaveHandler (Nodes createLeaveProcess ! 0) @ [StateCommit (Edges createLeaveProcess ! 0) ok (Some err)] \<and> (None :: error option) = Some err)
    \<or> (\<exists>ok. ([] :: event list) = after_log leaveHandler (Nodes createLeaveProcess ! 0) @ commit_log leaveHandler (Edges createLeaveProcess ! 0) ok
           \<and> GetNodeByID (process leaveHandler) (DstID (Edges createLeaveProcess ! 0)) = None \<and> (None :: error option) = Some (TargetNodeNotFound (Edge.ID (Edges createLeaveProcess ! 0))))
    \<or> (\<exists>ok dst. ([] :: event list) = after_log leaveHandler (Nodes createLeaveProcess ! 0) @ commit_log leaveHandler (Edges createLeaveProcess ! 0) ok
           \<and> GetNodeByID (process leaveHandler) (DstID (Edges createLeaveProcess ! 0)) = Some dst
           \<and> GetNodeBeforeHandler (registry leaveHandler) (NodeType dst) = None \<and> (None :: error option) = None)
    \<or> (\<exists>ok dst. ([] :: event list) = after_log leaveHandler (Nodes createLeaveProcess ! 0) @ commit_log leaveHandler (Edges createLeaveProcess ! 0) ok @ [BeforeHandler dst (None :: error option)]
           \<and> GetNodeByID (process leaveHandler) (DstID (Edges createLeaveProcess ! 0)) = Some dst
           \<and> GetNodeBeforeHandler (registry leaveHandler) (NodeType dst) \<noteq> None))"
proof -
  have n1: "GetNodeByID (process fullHandler) ''A'' = Some node_A"
    by (simp add: graph_defs registry_defs engine_defs example_defs)
  have r1: "ProcessNode fullHandler [''e_high'', ''e_low''] ''A'' (0, [])
     = (None, (6, [OnHandler node_A None, DecisionHandler e_high False None]
          @ DecisionHandler e_low True None # [AfterHandler node_A None, StateCommit e_low False None, BeforeHandler node_B None]))"
    by (simp add: graph_defs registry_defs engine_defs example_defs)
  have n2: "GetNodeByID (process commitFailsHandler) ''A'' = Some node_A"
    by (simp add: graph_defs registry_defs engine_defs example_defs)
  have r2: "ProcessNode commitFailsHandler [''e_high'', ''e_low''] ''A'' (0, [])
     = (Some (HandlerFailure ''commit''), (4, [OnHandler node_A None, DecisionHandler e_high False None]
          @ DecisionHandler e_low True None # [StateCommit e_low False (Some (HandlerFailure ''commit''))]))"
    by (simp add: graph_defs registry_defs engine_defs example_defs)
  have n3: "GetNodeByID (process leaveHandler) ''leave_request'' = Some (Nodes createLeaveProcess ! 0)"
    by (simp add: graph_defs registry_defs engine_defs leave_defs)
  have r3: "ProcessNode leaveHandler [''approval_edge'', ''complete_edge''] ''leave_request'' (0, [])
     = (None, (0, [OnHandler (Nodes createLeaveProcess ! 0) None]
          @ DecisionHandler (Edges createLeaveProcess ! 0) True None # ([] :: event list)))"
    by (simp add: graph_defs registry_defs engine_defs leave_defs)
  from ProcessNode_accept_order[OF n1 r1] ProcessNode_accept_order[OF n2 r2]
       ProcessNode_accept_order[OF n3 r3] n1 r1 n2 r2 n3 r3
  show ?thesis by (intro conjI)
qed

section \<open>Failures of the on-handler and missing handlers\<close>

text \<open>
  Claim C4. When the on-handler of the node returns an error, the step returns that
  very error, and the only invocation the step has added to the log is that of the
  on-handler: no decision-handler has run.
\<close>

theorem ProcessNode_on_handler_error:
  assumes "GetNodeByID (process ph) nodeID = Some node"
      and "GetNodeHandler (registry ph) (NodeType node) = Some h"
      and "h node s = (Some err, s1)"
  shows "ProcessNode ph it nodeID (s, tr) = (Some err, (s1, tr @ [OnHandler node (Some err)]))"
  using assms by (simp add: ProcessNode_def invoke_node_def)

theorem ProcessNode_on_handler_error_witness:
  "ProcessNode failingHandler [''e_high'', ''e_low''] ''A'' (0, [])
     = (Some (HandlerFailure ''refused''), (1, [] @ [OnHandler node_A (Some (HandlerFailure ''refused''))]))"
proof -
  have h1: "GetNodeByID (process failingHandler) ''A'' = Some node_A"
    by (simp add: graph_defs example_defs)
  have h2: "GetNodeHandler (registry failingHandler) (NodeType node_A) = Some (failWith ''refused'')"
    by (simp add: registry_defs example_defs)
  have h3: "failWith ''refused'' node_A 0 = (Some (HandlerFailure ''refused''), 1)"
    by (simp add: failWith_def)
  show ?thesis by (rule ProcessNode_on_handler_error[OF h1 h2 h3])
qed

text \<open>
  Claim C5. When no on-handler is registered for the type of the node, the step
  fails with the handler-not-found error for that node type and leaves the store
  and the log as they were, so no handler at all has run. When the on-handler
  succeeded, the edges before \<open>edge\<close> in the list of outgoing edges all declined, and
  no decision-handler is registered for the type of \<open>edge\<close>, the step fails with the
  handler-not-found error for that edge type in the world the declining handlers
  left: the edge is not skipped and the edges after it are not looked at.
\<close>

theorem ProcessNode_handler_not_found:
  "(GetNodeByID (process ph) nodeID = Some node
      \<and> GetNodeHandler (registry ph) (NodeType node) = None
    \<longrightarrow> ProcessNode ph it nodeID (s, tr) = (Some (NodeHandlerNotFound (NodeType node)), (s, tr)))
 \<and> (GetNodeByID (process ph) nodeID = Some node
      \<and> GetNodeHandler (registry ph) (NodeType node) = Some h
      \<and> h node s = (None, s1)
      \<and> GetOutgoingEdges (process ph) it nodeID = pre @ edge # post
      \<and> all_decline ph pre (s1, tr @ [OnHandler node None]) = Some w1
      \<and> GetEdgeHandler (registry ph) (EdgeType edge) = None
    \<longrightarrow> ProcessNode ph it nodeID (s, tr) = (Some (EdgeHandlerNotFound (EdgeType edge)), w1))"
proof (intro conjI impI)
  assume "GetNodeByID (process ph) nodeID = Some node
      \<and> GetNodeHandler (registry ph) (NodeType node) = None"
  then show "ProcessNode ph it nodeID (s, tr) = (Some (NodeHandlerNotFound (NodeType node)), (s, tr))"
    by (simp add: ProcessNode_def)
next
  assume a: "GetNodeByID (process ph) nodeID = Some node
      \<and> GetNodeHandler (registry ph) (NodeType node) = Some h
      \<and> h node s = (None, s1)
      \<and> GetOutgoingEdges (process ph) it nodeID = pre @ edge # post
      \<and> all_decline ph pre (s1, tr @ [OnHandler node None]) = Some w1
      \<and> GetEdgeHandler (registry ph) (EdgeType edge) = None"
  then have "ProcessNode ph it nodeID (s, tr) =
      ProcessNode_edges ph node (pre @ edge # post) (s1, tr @ [OnHandler node None])"
    using ProcessNode_on_ok[of ph nodeID node h s s1 it tr] by simp
  also have "\<dots> = ProcessNode_edges ph node (edge # post) w1"
    using a by (simp add: all_decline_append)
  also have "\<dots> = (Some (EdgeHandlerNotFound (EdgeType edge)), w1)"
    using a by (simp add: ProcessEdge_def)
  finally show "ProcessNode ph it nodeID (s, tr) = (Some (EdgeHandlerNotFound (EdgeType edge)), w1)"
    by simp
qed

theorem ProcessNode_handler_not_found_witness:
  "ProcessNode emptyHandler [''e_high'', ''e_low''] ''A'' (0, [])
      = (Some (NodeHandlerNotFound ''start''), (0, []))
 \<and> ProcessNode rejectOnlyHandler [''e_high'', ''e_low''] ''A'' (0, [])
      = (Some (EdgeHandlerNotFound ''approve''), (2, [OnHandler node_A None, declined e_high]))"
proof -
  have a1: "GetNodeByID (process emptyHandler) ''A'' = Some node_A
      \<and> GetNodeHandler (registry emptyHandler) (NodeType node_A) = None"
    by (simp add: graph_defs registry_defs example_defs)
  have a2: "NodeType node_A = ''start''"
    by (simp add: node_A_def)
  have b1: "GetNodeByID (process rejectOnlyHandler) ''A'' = Some node_A
      \<and> GetNodeHandler (registry rejectOnlyHandler) (NodeType node_A) = Some succeed
      \<and> succeed node_A 0 = (None, 1)
      \<and> GetOutgoingEdges (process rejectOnlyHandler) [''e_high'', ''e_low''] ''A'' = [e_high] @ e_low # []
      \<and> all_decline rejectOnlyHandler [e_high] (1, [] @ [OnHandler node_A None])
           = Some (2, [OnHandler node_A None, declined e_high])
      \<and> GetEdgeHandler (registry rejectOnlyHandler) (EdgeType e_low) = None"
    by (simp add: graph_defs registry_defs example_defs ProcessEdge_def invoke_edge_def declined_def)
  have b2: "EdgeType e_low = ''approve''"
    by (simp add: e_low_def)
  from mp[OF conjunct1[OF ProcessNode_handler_not_found] a1]
       mp[OF conjunct2[OF ProcessNode_handler_not_found] b1]
  show ?thesis unfolding a2 b2 by (intro conjI)
qed

section \<open>A step in which every edge declines\<close>

text \<open>
  Claim C6. When the on-handler succeeded and every outgoing edge has a
  decision-handler that declines, the step returns no error, and its log is the
  on-handler followed by one declined decision per outgoing edge, in order: no
  after-handler, no state-commit callback and no before-handler has run.
\<close>

theorem ProcessNode_all_decline:
  assumes "GetNodeByID (process ph) nodeID = Some node"
      and "GetNodeHandler (registry ph) (NodeType node) = Some h"
      and "h node s = (None, s1)"
      and "all_decline ph (GetOutgoingEdges (process ph) it nodeID) (s1, tr @ [OnHandler node None])
             = Some (s', tr')"
  shows "ProcessNode ph it nodeID (s, tr) = (None, (s', tr'))
       \<and> tr' = tr @ OnHandler node None # map declined (GetOutgoingEdges (process ph) it nodeID)"
proof -
  have "ProcessNode ph it nodeID (s, tr) =
      ProcessNode_edges ph node (GetOutgoingEdges (process ph) it nodeID @ [])
        (s1, tr @ [OnHandler node None])"
    using ProcessNode_on_ok[OF assms(1-3)] by simp
  also have "\<dots> = ProcessNode_edges ph node [] (s', tr')"
    using assms(4) by (rule all_decline_append)
  finally have "ProcessNode ph it nodeID (s, tr) = (None, (s', tr'))" by simp
  moreover from all_decline_trace[OF assms(4)]
  have "tr' = tr @ OnHandler node None # map declined (GetOutgoingEdges (process ph) it nodeID)"
    by simp
  ultimately show ?thesis by simp
qed

theorem ProcessNode_all_decline_witness:
  "ProcessNode decliningHandler [''e_high'', ''e_low''] ''A'' (0, [])
      = (None, (3, [OnHandler node_A None, declined e_high, declined e_low]))
 \<and> [OnHandler node_A None, declined e_high, declined e_low]
      = [] @ OnHandler node_A None
           # map declined (GetOutgoingEdges (process decliningHandler) [''e_high'', ''e_low''] ''A'')"
proof -
  have h1: "GetNodeByID (process decliningHandler) ''A'' = Some node_A"
    by (simp add: graph_defs example_defs)
  have h2: "GetNodeHandler (registry decliningHandler) (NodeType node_A) = Some succeed"
    by (simp add: registry_defs example_defs)
  have h3: "succeed node_A 0 = (None, 1)"
    by (simp add: succeed_def)
  have h4: "all_decline decliningHandler
              (GetOutgoingEdges (process decliningHandler) [''e_high'', ''e_low''] ''A'')
              (1, [] @ [OnHandler node_A None])
            = Some (3, [OnHandler node_A None, declined e_high, declined e_low])"
    by (simp add: graph_defs registry_defs example_defs ProcessEdge_def invoke_edge_def declined_def)
  show ?thesis by (rule ProcessNode_all_decline[OF h1 h2 h3 h4])
qed

section \<open>Destinations\<close>

text \<open>
  Claim C7. On the graph built from a definition, \<^verbatim>\<open>GetNextNodeByEdge\<close> returns a
  node of the definition whose ID is the destination ID of the edge whenever some
  node of the definition has that ID, and it returns the target-not-found error for
  the edge exactly when no node of the definition has that ID.
\<close>

theorem GetNextNodeByEdge_resolves:
  "(DstID edge \<in> Node.ID ` set (Nodes pd) \<longrightarrow>
      (\<exists>n \<in> set (Nodes pd). Node.ID n = DstID edge
          \<and> GetNextNodeByEdge (fst (NewProcess pd ys)) edge = Inr n))
 \<and> (DstID edge \<notin> Node.ID ` set (Nodes pd) \<longleftrightarrow>
      GetNextNodeByEdge (fst (NewProcess pd ys)) edge = Inl (TargetNodeNotFound (Edge.ID edge)))"
proof (intro conjI impI iffI)
  assume "DstID edge \<in> Node.ID ` set (Nodes pd)"
  then have "nodes (fst (NewProcess pd ys)) (DstID edge) \<noteq> None"
    by (simp add: NewProcess_nodes_None)
  then obtain n where n: "nodes (fst (NewProcess pd ys)) (DstID edge) = Some n"
    by blast
  from NewProcess_nodes_Some[OF n] have "n \<in> set (Nodes pd)" "Node.ID n = DstID edge"
    by simp_all
  moreover from n have "GetNextNodeByEdge (fst (NewProcess pd ys)) edge = Inr n"
    by (simp add: GetNextNodeByEdge_def GetNodeByID_def)
  ultimately show "\<exists>n \<in> set (Nodes pd). Node.ID n = DstID edge
          \<and> GetNextNodeByEdge (fst (NewProcess pd ys)) edge = Inr n"
    by blast
next
  assume "DstID edge \<notin> Node.ID ` set (Nodes pd)"
  then have "nodes (fst (NewProcess pd ys)) (DstID edge) = None"
    by (simp add: NewProcess_nodes_None)
  then show "GetNextNodeByEdge (fst (NewProcess pd ys)) edge = Inl (TargetNodeNotFound (Edge.ID edge))"
    by (simp add: GetNextNodeByEdge_def GetNodeByID_def)
next
  assume "GetNextNodeByEdge (fst (NewProcess pd ys)) edge = Inl (TargetNodeNotFound (Edge.ID edge))"
  then have "nodes (fst (NewProcess pd ys)) (DstID edge) = None"
    by (simp add: GetNextNodeByEdge_def GetNodeByID_def split: option.splits)
  then show "DstID edge \<notin> Node.ID ` set (Nodes pd)"
    by (simp add: NewProcess_nodes_None)
qed

theorem GetNextNodeByEdge_resolves_witness:
  "(''B'' \<in> Node.ID ` set (Nodes twoEdges) \<and>
      (\<exists>n \<in> set (Nodes twoEdges). Node.ID n = ''B''
          \<and> GetNextNodeByEdge twoEdgesGraph e_low = Inr n))
 \<and> (''Z'' \<notin> Node.ID ` set (Nodes twoEdges) \<and>
      GetNextNodeByEdge twoEdgesGraph (e_low\<lparr>DstID := ''Z''\<rparr>) = Inl (TargetNodeNotFound ''e_low''))"
proof -
  have g: "fst (NewProcess twoEdges [e_low, e_high]) = twoEdgesGraph"
    by (simp add: twoEdgesGraph_def)
  have a1: "DstID e_low \<in> Node.ID ` set (Nodes twoEdges)"
    by (simp add: example_defs)
  have a2: "DstID e_low = ''B''"
    by (simp add: example_defs)
  have b1: "DstID (e_low\<lparr>DstID := ''Z''\<rparr>) \<notin> Node.ID ` set (Nodes twoEdges)"
    by (simp add: example_defs)
  have b2: "DstID (e_low\<lparr>DstID := ''Z''\<rparr>) = ''Z''" "Edge.ID (e_low\<lparr>DstID := ''Z''\<rparr>) = ''e_low''"
    by (simp_all add: example_defs)
  have t1: "\<exists>n \<in> set (Nodes twoEdges). Node.ID n = DstID e_low
          \<and> GetNextNodeByEdge (fst (NewProcess twoEdges [e_low, e_high])) e_low = Inr n"
    by (rule mp[OF conjunct1[OF GetNextNodeByEdge_resolves[of e_low twoEdges "[e_low, e_high]"]] a1])
  have t2: "GetNextNodeByEdge (fst (NewProcess twoEdges [e_low, e_high])) (e_low\<lparr>DstID := ''Z''\<rparr>)
              = Inl (TargetNodeNotFound (Edge.ID (e_low\<lparr>DstID := ''Z''\<rparr>)))"
    by (rule iffD1[OF conjunct2[OF GetNextNodeByEdge_resolves[of "e_low\<lparr>DstID := ''Z''\<rparr>" twoEdges "[e_low, e_high]"]] b1])
  from t1 t2 a1 b1 show ?thesis
    unfolding g a2 b2 by (intro conjI)
qed

text \<open>
  \<^verbatim>\<open>GetNextNodes\<close> never returns an error. Its nodes are the destinations of the
  edges that its own call of \<^verbatim>\<open>GetOutgoingEdges\<close> returns, looked up one by one in
  the order of that call; an edge whose destination ID belongs to no node of the
  definition contributes nothing.
\<close>

lemma GetNextNodes_own_edges:
  "snd (GetNextNodes (fst (NewProcess pd ys)) it nodeID) = None
 \<and> fst (GetNextNodes (fst (NewProcess pd ys)) it nodeID)
     = List.map_filter (\<lambda>edge. GetNodeByID (fst (NewProcess pd ys)) (DstID edge))
         (GetOutgoingEdges (fst (NewProcess pd ys)) it nodeID)
 \<and> map Node.ID (fst (GetNextNodes (fst (NewProcess pd ys)) it nodeID))
     = filter (\<lambda>d. d \<in> Node.ID ` set (Nodes pd))
         (map DstID (GetOutgoingEdges (fst (NewProcess pd ys)) it nodeID))"
proof -
  let ?g = "fst (NewProcess pd ys)"
  have ids: "map Node.ID (List.map_filter (\<lambda>edge. nodes ?g (DstID edge)) es)
           = filter (\<lambda>d. d \<in> Node.ID ` set (Nodes pd)) (map DstID es)" for es
  proof (induction es)
    case Nil
    then show ?case by (simp add: List.map_filter_simps)
  next
    case (Cons e es)
    show ?case
    proof (cases "nodes ?g (DstID e)")
      case None
      then have "DstID e \<notin> Node.ID ` set (Nodes pd)"
        by (simp add: NewProcess_nodes_None)
      with None Cons show ?thesis by (simp add: List.map_filter_simps)
    next
      case (Some n)
      then have "nodes ?g (DstID e) \<noteq> None" by simp
      then have "DstID e \<in> Node.ID ` set (Nodes pd)"
        by (simp add: NewProcess_nodes_None)
      with Some NewProcess_nodes_Some[OF Some] Cons show ?thesis
        by (simp add: List.map_filter_simps)
    qed
  qed
  show ?thesis
    by (simp add: GetNextNodes_def nextnodes_fold GetNodeByID_def ids)
qed

text \<open>
  Claim C8. The order of the nodes that \<^verbatim>\<open>GetNextNodes\<close> returns is the order in
  which the loop inside its own call of \<^verbatim>\<open>GetOutgoingEdges\<close> visits the map, and
  another call of \<^verbatim>\<open>GetOutgoingEdges\<close> may visit the map in another order. On the
  graph of the two-edge scenario both orders of the two keys are possible; a call
  of \<^verbatim>\<open>GetOutgoingEdges\<close> for node \<open>A\<close> that visits \<open>e_low\<close> first returns edges with
  the destinations \<open>B\<close>, \<open>C\<close>, and a call of \<^verbatim>\<open>GetNextNodes\<close> for node \<open>A\<close> that
  visits \<open>e_high\<close> first returns the nodes \<open>C\<close>, \<open>B\<close> and no error: the same
  destinations in another order, and not in the order of the priorities.
\<close>

theorem GetNextNodes_order_differs:
  "map_range (edges twoEdgesGraph) [''e_low'', ''e_high'']
 \<and> map_range (edges twoEdgesGraph) [''e_high'', ''e_low'']
 \<and> GetOutgoingEdges twoEdgesGraph [''e_low'', ''e_high''] ''A'' = [e_low, e_high]
 \<and> map DstID (GetOutgoingEdges twoEdgesGraph [''e_low'', ''e_high''] ''A'') = [''B'', ''C'']
 \<and> GetNextNodes twoEdgesGraph [''e_high'', ''e_low''] ''A'' = ([node_C, node_B], None)
 \<and> map Node.ID (fst (GetNextNodes twoEdgesGraph [''e_high'', ''e_low''] ''A'')) = [''C'', ''B'']"
  by (simp add: graph_defs example_defs insert_commute)

section \<open>What construction does to the definition\<close>

text \<open>
  Claim C9, as amended. \<^verbatim>\<open>NewProcess\<close> leaves the nodes of the caller's definition as
  they were and leaves in its \<^verbatim>\<open>Edges\<close> the same edges, each as often as before,
  in ascending order of priority. When the priorities of the edges were strictly
  ascending already, the definition after the call is the definition before it.
\<close>

theorem NewProcess_sorts_definition:
  assumes "sort_Slice NewProcess_less (Edges pd) ys"
  shows "Nodes (snd (NewProcess pd ys)) = Nodes pd
       \<and> mset (Edges (snd (NewProcess pd ys))) = mset (Edges pd)
       \<and> sorted (map Priority (Edges (snd (NewProcess pd ys))))
       \<and> (sorted_wrt (<) (map Priority (Edges pd)) \<longrightarrow> snd (NewProcess pd ys) = pd)"
proof -
  from assms have m: "mset ys = mset (Edges pd)" and s: "sorted (map Priority ys)"
    by (simp_all add: sort_Slice_priorities)
  have "ys = Edges pd" if "sorted_wrt (<) (map Priority (Edges pd))"
    using sorted_perm_unique[OF m s that] .
  with m s show ?thesis by (auto simp: NewProcess_def)
qed

theorem NewProcess_sorts_definition_witness:
  "sort_Slice NewProcess_less (Edges twoEdges) [e_low, e_high]
 \<and> Nodes (snd (NewProcess twoEdges [e_low, e_high])) = Nodes twoEdges
 \<and> mset (Edges (snd (NewProcess twoEdges [e_low, e_high]))) = mset (Edges twoEdges)
 \<and> sorted (map Priority (Edges (snd (NewProcess twoEdges [e_low, e_high]))))
 \<and> sort_Slice NewProcess_less (Edges (twoEdges\<lparr>Edges := [e_low, e_high]\<rparr>)) [e_low, e_high]
 \<and> sorted_wrt (<) (map Priority (Edges (twoEdges\<lparr>Edges := [e_low, e_high]\<rparr>)))
 \<and> snd (NewProcess (twoEdges\<lparr>Edges := [e_low, e_high]\<rparr>) [e_low, e_high])
      = twoEdges\<lparr>Edges := [e_low, e_high]\<rparr>"
proof -
  have h1: "sort_Slice NewProcess_less (Edges twoEdges) [e_low, e_high]"
    by (simp add: sort_Slice_priorities example_defs)
  have h2: "sort_Slice NewProcess_less (Edges (twoEdges\<lparr>Edges := [e_low, e_high]\<rparr>)) [e_low, e_high]"
    by (simp add: sort_Slice_priorities example_defs)
  have h3: "sorted_wrt (<) (map Priority (Edges (twoEdges\<lparr>Edges := [e_low, e_high]\<rparr>)))"
    by (simp add: example_defs)
  from NewProcess_sorts_definition[OF h1] NewProcess_sorts_definition[OF h2] h1 h2 h3
  show ?thesis by blast
qed

text \<open>
  Claim C9 as stated fails. For the definition that declares the priority-2 edge
  before the priority-1 edge, sorting by priority can only leave the priority-1 edge
  first, so after \<^verbatim>\<open>NewProcess\<close> the caller's definition has its edges in another
  order than before.
\<close>

theorem NewProcess_reorders_edges:
  "sort_Slice NewProcess_less (Edges twoEdges) [e_low, e_high]
 \<and> Edges twoEdges = [e_high, e_low]
 \<and> Edges (snd (NewProcess twoEdges [e_low, e_high])) = [e_low, e_high]
 \<and> snd (NewProcess twoEdges [e_low, e_high]) \<noteq> twoEdges"
  by (simp add: sort_Slice_priorities NewProcess_def example_defs)

section \<open>The boolean result of the state-commit callback\<close>

text \<open>
  Replacing the boolean that the state-commit callback returns by any other
  boolean, its error result and its effect on the store kept, changes nothing in
  what a step returns, in the store it leaves, or in the handlers it invokes and
  their results.
\<close>

lemma step_with_ok:
  "outcome (ProcessNode (ph\<lparr>circulate := Some (with_ok f c)\<rparr>) it nodeID w)
     = outcome (ProcessNode (ph\<lparr>circulate := Some c\<rparr>) it nodeID w)"
  by (auto simp: ProcessNode_def edges_with_ok split: option.splits prod.splits)

text \<open>
  Claim C10. Take a step in which the on-handler succeeded, the edges before \<open>e\<close>
  declined, the decision-handler of \<open>e\<close> accepted, the after-handler of the node is
  absent or succeeded, and the state-commit callback is present and returned the
  boolean \<open>ok\<close> and the error result \<open>cerr\<close>. If \<open>cerr\<close> is an error, the step returns
  it, and the callback is the last entry of the log. If \<open>cerr\<close> is \<^verbatim>\<open>nil\<close>, then
  whatever \<open>ok\<close> is, \<^verbatim>\<open>false\<close> included, the step goes on to look up the destination
  of \<open>e\<close>: it fails with the target-not-found error when the destination is not in
  the graph, succeeds when the destination has no before-handler, and otherwise
  runs the before-handler of the destination in the store the callback left and
  returns what that handler returns. The boolean occurs in the log entry of the
  callback and nowhere else, and replacing it by any other boolean leaves the
  outcome of the step as it is.
\<close>

theorem state_commit_bool_ignored:
  assumes "GetNodeByID (process ph) nodeID = Some node"
      and "GetNodeHandler (registry ph) (NodeType node) = Some h"
      and "h node s = (None, s1)"
      and "GetOutgoingEdges (process ph) it nodeID = pre @ e # rest"
      and "all_decline ph pre (s1, tr @ [OnHandler node None]) = Some (s2, tr2)"
      and "GetEdgeHandler (registry ph) (EdgeType e) = Some he"
      and "he e s2 = ((True, None), s3)"
      and "GetNodeAfterHandler (registry ph) (NodeType node) = None \<and> s4 = s3
         \<or> (\<exists>ha. GetNodeAfterHandler (registry ph) (NodeType node) = Some ha
                \<and> ha node s3 = (None, s4))"
      and "circulate ph = Some c"
      and "c e s4 = ((ok, cerr), s5)"
  shows "ProcessNode ph it nodeID (s, tr) =
     (case cerr of
        Some x \<Rightarrow>
          (Some x, (s5, tr2 @ DecisionHandler e True None # after_log ph node
                         @ [StateCommit e ok (Some x)]))
      | None \<Rightarrow>
          (case GetNodeByID (process ph) (DstID e) of
             None \<Rightarrow>
               (Some (TargetNodeNotFound (Edge.ID e)),
                (s5, tr2 @ DecisionHandler e True None # after_log ph node
                       @ [StateCommit e ok None]))
           | Some dst \<Rightarrow>
               (case GetNodeBeforeHandler (registry ph) (NodeType dst) of
                  None \<Rightarrow>
                    (None, (s5, tr2 @ DecisionHandler e True None # after_log ph node
                                  @ [StateCommit e ok None]))
                | Some hb \<Rightarrow>
                    (fst (hb dst s5),
                     (snd (hb dst s5),
                      tr2 @ DecisionHandler e True None # after_log ph node
                        @ [StateCommit e ok None, BeforeHandler dst (fst (hb dst s5))])))))
   \<and> outcome (ProcessNode (ph\<lparr>circulate := Some (with_ok f c)\<rparr>) it nodeID (s, tr))
       = outcome (ProcessNode ph it nodeID (s, tr))"
proof
  have "ProcessNode ph it nodeID (s, tr) =
      ProcessNode_edges ph node (pre @ e # rest) (s1, tr @ [OnHandler node None])"
    using ProcessNode_on_ok[OF assms(1-3), of it tr] assms(4) by simp
  also have "\<dots> = ProcessNode_edges ph node (e # rest) (s2, tr2)"
    using assms(5) by (rule all_decline_append)
  also have "\<dots> = ProcessNode_accepted ph node e (s3, tr2 @ [DecisionHandler e True None])"
    using assms(6,7) by (simp add: ProcessEdge_def invoke_edge_def)
  also have "\<dots> =
     (case cerr of
        Some x \<Rightarrow>
          (Some x, (s5, tr2 @ DecisionHandler e True None # after_log ph node
                         @ [StateCommit e ok (Some x)]))
      | None \<Rightarrow>
          (case GetNodeByID (process ph) (DstID e) of
             None \<Rightarrow>
               (Some (TargetNodeNotFound (Edge.ID e)),
                (s5, tr2 @ DecisionHandler e True None # after_log ph node
                       @ [StateCommit e ok None]))
           | Some dst \<Rightarrow>
               (case GetNodeBeforeHandler (registry ph) (NodeType dst) of
                  None \<Rightarrow>
                    (None, (s5, tr2 @ DecisionHandler e True None # after_log ph node
                                  @ [StateCommit e ok None]))
                | Some hb \<Rightarrow>
                    (fst (hb dst s5),
                     (snd (hb dst s5),
                      tr2 @ DecisionHandler e True None # after_log ph node
                        @ [StateCommit e ok None, BeforeHandler dst (fst (hb dst s5))])))))"
    using assms(8)
  proof
    assume "GetNodeAfterHandler (registry ph) (NodeType node) = None \<and> s4 = s3"
    with assms(9,10) show ?thesis
      by (simp add: ProcessNode_accepted_def after_log_def invoke_node_def invoke_edge_def
            GetNextNodeByEdge_def split: option.splits prod.splits)
  next
    assume "\<exists>ha. GetNodeAfterHandler (registry ph) (NodeType node) = Some ha
                \<and> ha node s3 = (None, s4)"
    then obtain ha where "GetNodeAfterHandler (registry ph) (NodeType node) = Some ha"
      "ha node s3 = (None, s4)" by blast
    with assms(9,10) show ?thesis
      by (simp add: ProcessNode_accepted_def after_log_def invoke_node_def invoke_edge_def
            GetNextNodeByEdge_def split: option.splits prod.splits)
  qed
  finally show "ProcessNode ph it nodeID (s, tr) =
     (case cerr of
        Some x \<Rightarrow>
          (Some x, (s5, tr2 @ DecisionHandler e True None # after_log ph node
                         @ [StateCommit e ok (Some x)]))
      | None \<Rightarrow>
          (case GetNodeByID (process ph) (DstID e) of
             None \<Rightarrow>
               (Some (TargetNodeNotFound (Edge.ID e)),
                (s5, tr2 @ DecisionHandler e True None # after_log ph node
                       @ [StateCommit e ok None]))
           | Some dst \<Rightarrow>
               (case GetNodeBeforeHandler (registry ph) (NodeType dst) of
                  None \<Rightarrow>
                    (None, (s5, tr2 @ DecisionHandler e True None # after_log ph node
                                  @ [StateCommit e ok None]))
                | Some hb \<Rightarrow>
                    (fst (hb dst s5),
                     (snd (hb dst s5),
                      tr2 @ DecisionHandler e True None # after_log ph node
                        @ [StateCommit e ok None, BeforeHandler dst (fst (hb dst s5))])))))" .
next
  from assms(9) have "ph\<lparr>circulate := Some c\<rparr> = ph" by simp
  with step_with_ok[where ph = ph and f = f and c = c and it = it
         and nodeID = nodeID and w = "(s, tr)"]
  show "outcome (ProcessNode (ph\<lparr>circulate := Some (with_ok f c)\<rparr>) it nodeID (s, tr))
       = outcome (ProcessNode ph it nodeID (s, tr))" by simp
qed

theorem state_commit_bool_ignored_witness:
  "ProcessNode fullHandler [''e_high'', ''e_low''] ''A'' (0, []) =
     (None, (6, [OnHandler node_A None, DecisionHandler e_high False None,
                 DecisionHandler e_low True None, AfterHandler node_A None,
                 StateCommit e_low False None, BeforeHandler node_B None]))
 \<and> outcome (ProcessNode (fullHandler\<lparr>circulate := Some (with_ok (\<lambda>edge s. True) (decide False))\<rparr>)
              [''e_high'', ''e_low''] ''A'' (0, []))
     = outcome (ProcessNode fullHandler [''e_high'', ''e_low''] ''A'' (0, []))
 \<and> ProcessNode commitFailsHandler [''e_high'', ''e_low''] ''A'' (0, []) =
     (Some (HandlerFailure ''commit''),
      (4, [OnHandler node_A None, DecisionHandler e_high False None,
           DecisionHandler e_low True None,
           StateCommit e_low False (Some (HandlerFailure ''commit''))]))"
proof -
  have a1: "GetNodeByID (process fullHandler) ''A'' = Some node_A"
    by (simp add: graph_defs example_defs)
  have a2: "GetNodeHandler (registry fullHandler) (NodeType node_A) = Some succeed"
    by (simp add: registry_defs example_defs)
  have a3: "succeed node_A 0 = (None, 1)"
    by (simp add: succeed_def)
  have a4: "GetOutgoingEdges (process fullHandler) [''e_high'', ''e_low''] ''A'' = [e_high] @ e_low # []"
    by (simp add: graph_defs example_defs)
  have a5: "all_decline fullHandler [e_high] (1, [] @ [OnHandler node_A None])
              = Some (2, [OnHandler node_A None, DecisionHandler e_high False None])"
    by (simp add: registry_defs example_defs ProcessEdge_def invoke_edge_def)
  have a6: "GetEdgeHandler (registry fullHandler) (EdgeType e_low) = Some (decide True)"
    by (simp add: registry_defs example_defs)
  have a7: "decide True e_low 2 = ((True, None), 3)"
    by (simp add: decide_def)
  have a8: "GetNodeAfterHandler (registry fullHandler) (NodeType node_A) = None \<and> (4 :: nat) = 3
         \<or> (\<exists>ha. GetNodeAfterHandler (registry fullHandler) (NodeType node_A) = Some ha
                \<and> ha node_A 3 = (None, 4))"
    by (simp add: registry_defs example_defs)
  have a9: "circulate fullHandler = Some (decide False)"
    by (simp add: fullHandler_def)
  have a10: "decide False e_low 4 = ((False, None), 5)"
    by (simp add: decide_def)
  have b1: "GetNodeByID (process commitFailsHandler) ''A'' = Some node_A"
    by (simp add: graph_defs example_defs)
  have b2: "GetNodeHandler (registry commitFailsHandler) (NodeType node_A) = Some succeed"
    by (simp add: registry_defs example_defs)
  have b4: "GetOutgoingEdges (process commitFailsHandler) [''e_high'', ''e_low''] ''A'' = [e_high] @ e_low # []"
    by (simp add: graph_defs example_defs)
  have b5: "all_decline commitFailsHandler [e_high] (1, [] @ [OnHandler node_A None])
              = Some (2, [OnHandler node_A None, DecisionHandler e_high False None])"
    by (simp add: registry_defs example_defs ProcessEdge_def invoke_edge_def)
  have b6: "GetEdgeHandler (registry commitFailsHandler) (EdgeType e_low) = Some (decide True)"
    by (simp add: registry_defs example_defs)
  have b8: "GetNodeAfterHandler (registry commitFailsHandler) (NodeType node_A) = None \<and> (3 :: nat) = 3
         \<or> (\<exists>ha. GetNodeAfterHandler (registry commitFailsHandler) (NodeType node_A) = Some ha
                \<and> ha node_A 3 = (None, 3))"
    by (simp add: registry_defs example_defs)
  have b9: "circulate commitFailsHandler = Some (decideFail ''commit'')"
    by (simp add: commitFailsHandler_def)
  have b10: "decideFail ''commit'' e_low 3 = ((False, Some (HandlerFailure ''commit'')), 4)"
    by (simp add: decideFail_def)
  have d1: "after_log fullHandler node_A = [AfterHandler node_A None]"
    by (simp add: after_log_def registry_defs example_defs)
  have d2: "GetNodeByID (process fullHandler) (DstID e_low) = Some node_B"
    by (simp add: graph_defs example_defs)
  have d3: "GetNodeBeforeHandler (registry fullHandler) (NodeType node_B) = Some succeed"
    by (simp add: registry_defs example_defs)
  have d4: "succeed node_B 5 = (None, 6)"
    by (simp add: succeed_def)
  have d5: "after_log commitFailsHandler node_A = []"
    by (simp add: after_log_def registry_defs example_defs)
  from state_commit_bool_ignored[OF a1 a2 a3 a4 a5 a6 a7 a8 a9 a10, of "\<lambda>edge s. True"]
       state_commit_bool_ignored[OF b1 b2 a3 b4 b5 b6 a7 b8 b9 b10, of "\<lambda>edge s. True"]
  show ?thesis
    by (simp add: d1 d2 d3 d4 d5)
qed

end
